theory Spec2Isabelle
  imports Complex_Main
begin

section \<open>Tank battle: entities\<close>

text \<open>
  A shallow embedding of \<^verbatim>\<open>src/tank_battle.py\<close>. Objects are records, the class
  hierarchy \<^verbatim>\<open>GameObject\<close> / \<^verbatim>\<open>Tank\<close>, \<^verbatim>\<open>Bullet\<close>, \<^verbatim>\<open>Obstacle\<close> is record
  extension, methods that mutate \<^verbatim>\<open>self\<close> return the updated record. Python integers
  are \<open>int\<close>. Every call of \<^verbatim>\<open>time.time()\<close> is an explicit argument holding the
  clock reading; readings and the two durations \<^verbatim>\<open>0.5\<close> and \<^verbatim>\<open>0.1\<close> are real
  numbers. The curses screen is left out: drawing changes no field of any object.
\<close>

datatype Direction = UP | DOWN | LEFT | RIGHT

text \<open>The \<^verbatim>\<open>.value\<close> of a member of the enum \<^verbatim>\<open>Direction\<close>.\<close>

fun direction_value :: "Direction \<Rightarrow> int \<times> int" where
  "direction_value UP = (0, -1)"
| "direction_value DOWN = (0, 1)"
| "direction_value LEFT = (-1, 0)"
| "direction_value RIGHT = (1, 0)"

record GameObject =
  x :: int
  y :: int
  symbol :: string
  alive :: bool

record Tank = GameObject +
  direction :: Direction
  color_pair :: int
  health :: int
  last_shot_time :: real
  shot_cooldown :: real

text \<open>
  The field \<^verbatim>\<open>direction\<close> of a \<^verbatim>\<open>Bullet\<close> is \<open>bullet_direction\<close>: a field name
  belongs to one record.
\<close>

record Bullet = GameObject +
  bullet_direction :: Direction
  speed :: real
  last_move_time :: real

record Obstacle = GameObject +
  destructible :: bool

text \<open>\<^verbatim>\<open>Tank.__init__\<close>\<close>

definition Tank_init :: "int \<Rightarrow> int \<Rightarrow> string \<Rightarrow> int \<Rightarrow> Tank" where
  "Tank_init px py glyph cp =
     \<lparr>x = px, y = py, symbol = glyph, alive = True,
      direction = UP, color_pair = cp, health = 3,
      last_shot_time = 0, shot_cooldown = 0.5\<rparr>"

text \<open>
  \<^verbatim>\<open>Bullet.__init__\<close>; \<open>now\<close> is the constructor's reading of the clock. The glyph
  is the bullet character U+2022, three bytes in UTF-8.
\<close>

definition Bullet_init :: "int \<Rightarrow> int \<Rightarrow> Direction \<Rightarrow> real \<Rightarrow> Bullet" where
  "Bullet_init px py d now =
     \<lparr>x = px, y = py, symbol = [CHR 0xE2, CHR 0x80, CHR 0xA2], alive = True,
      bullet_direction = d, speed = 0.1, last_move_time = now\<rparr>"

text \<open>\<^verbatim>\<open>Obstacle.__init__\<close>\<close>

definition Obstacle_init :: "int \<Rightarrow> int \<Rightarrow> Obstacle" where
  "Obstacle_init px py =
     \<lparr>x = px, y = py, symbol = ''#'', alive = True, destructible = True\<rparr>"

text \<open>\<^verbatim>\<open>Tank.move\<close>\<close>

definition move :: "Tank \<Rightarrow> int \<Rightarrow> int \<Rightarrow> int \<Rightarrow> int \<Rightarrow> Tank" where
  "move t dx dy mx my =
     (let new_x = x t + dx; new_y = y t + dy in
      if 0 < new_x \<and> new_x < mx - 1 \<and> 0 < new_y \<and> new_y < my - 1 then
        (let t1 = t\<lparr>x := new_x, y := new_y\<rparr> in
         if dx > 0 then t1\<lparr>direction := RIGHT, symbol := ''>''\<rparr>
         else if dx < 0 then t1\<lparr>direction := LEFT, symbol := ''<''\<rparr>
         else if dy > 0 then t1\<lparr>direction := DOWN, symbol := ''v''\<rparr>
         else if dy < 0 then t1\<lparr>direction := UP, symbol := ''^''\<rparr>
         else t1)
      else t)"

text \<open>
  \<^verbatim>\<open>Tank.can_shoot\<close>: the returned boolean and the tank afterwards;
  \<open>current_time\<close> is the reading of the clock.
\<close>

definition can_shoot :: "Tank \<Rightarrow> real \<Rightarrow> bool \<times> Tank" where
  "can_shoot t current_time =
     (if current_time - last_shot_time t > shot_cooldown t
      then (True, t\<lparr>last_shot_time := current_time\<rparr>)
      else (False, t))"

text \<open>
  \<^verbatim>\<open>Tank.shoot\<close>: the bullet or \<^verbatim>\<open>None\<close>, and the tank afterwards. The clock is
  read twice, by \<^verbatim>\<open>can_shoot\<close> (\<open>current_time\<close>) and then by the constructor of the
  bullet (\<open>created\<close>).
\<close>

definition shoot :: "Tank \<Rightarrow> real \<Rightarrow> real \<Rightarrow> Bullet option \<times> Tank" where
  "shoot t current_time created =
     (case can_shoot t current_time of
        (True, t1) \<Rightarrow>
          (case direction_value (direction t1) of
             (dx, dy) \<Rightarrow> (Some (Bullet_init (x t1 + dx) (y t1 + dy) (direction t1) created), t1))
      | (False, t1) \<Rightarrow> (None, t1))"

text \<open>\<^verbatim>\<open>Tank.hit\<close>\<close>

definition hit :: "Tank \<Rightarrow> Tank" where
  "hit t =
     (let t1 = t\<lparr>health := health t - 1\<rparr> in
      if health t1 \<le> 0 then t1\<lparr>alive := False\<rparr> else t1)"

text \<open>\<^verbatim>\<open>Bullet.update\<close>; \<open>current_time\<close> is the reading of the clock.\<close>

definition Bullet_update :: "Bullet \<Rightarrow> real \<Rightarrow> int \<Rightarrow> int \<Rightarrow> Bullet" where
  "Bullet_update b current_time mx my =
     (if current_time - last_move_time b > speed b then
        (case direction_value (bullet_direction b) of
           (dx, dy) \<Rightarrow>
             (let b1 = b\<lparr>x := x b + dx, y := y b + dy, last_move_time := current_time\<rparr> in
              if x b1 \<le> 0 \<or> x b1 \<ge> mx - 1 \<or> y b1 \<le> 0 \<or> y b1 \<ge> my - 1
              then b1\<lparr>alive := False\<rparr> else b1))
      else b)"

section \<open>Tank battle: the game\<close>

text \<open>
  The fields of \<^verbatim>\<open>Game\<close> without the screen. \<^verbatim>\<open>winner\<close> is \<^verbatim>\<open>None\<close> or a string.
  No object is in two places: \<^verbatim>\<open>player1\<close> and \<^verbatim>\<open>player2\<close> are two objects, every
  bullet is appended once, when it is created, and every obstacle once, so lists of
  records hold what the lists of object references hold.
\<close>

record Game =
  max_y :: int
  max_x :: int
  player1 :: Tank
  player2 :: Tank
  bullets :: "Bullet list"
  obstacles :: "Obstacle list"
  game_over :: bool
  winner :: "string option"

datatype error = ValueError

text \<open>
  \<^verbatim>\<open>Game.__init__\<close> with \<^verbatim>\<open>Game.init_game\<close>, for a screen of \<open>my\<close> rows and \<open>mx\<close>
  columns. \<open>draws\<close> holds the pairs that the calls of \<^verbatim>\<open>random.randint\<close> return, in
  the order of the loop; \<^verbatim>\<open>randint(a, b)\<close> raises \<^verbatim>\<open>ValueError\<close> when \<open>b < a\<close>, which
  the first round of the loop meets whenever it can happen.
\<close>

definition init_game :: "int \<Rightarrow> int \<Rightarrow> (int \<times> int) list \<Rightarrow> error + Game" where
  "init_game my mx draws =
     (if mx - 10 < 10 \<or> my - 3 < 3 then Inl ValueError
      else Inr \<lparr>max_y = my, max_x = mx,
                player1 = Tank_init 5 (my div 2) ''^'' 1,
                player2 = Tank_init (mx - 5) (my div 2) ''^'' 2,
                bullets = [],
                obstacles = map (\<lambda>(px, py). Obstacle_init px py) draws,
                game_over = False, winner = None\<rparr>)"

text \<open>What the twenty rounds of the loop of \<^verbatim>\<open>init_game\<close> can draw.\<close>

definition possible_draws :: "int \<Rightarrow> int \<Rightarrow> (int \<times> int) list \<Rightarrow> bool" where
  "possible_draws my mx draws =
     (length draws = 20 \<and>
      list_all (\<lambda>(px, py). 10 \<le> px \<and> px \<le> mx - 10 \<and> 3 \<le> py \<and> py \<le> my - 3) draws)"

text \<open>
  The key codes that \<^verbatim>\<open>handle_input\<close> compares with: \<^verbatim>\<open>ord\<close> of an ASCII character,
  and the values of the four arrow keys in the curses library.
\<close>

definition ord_w :: int where "ord_w = 119"
definition ord_s :: int where "ord_s = 115"
definition ord_a :: int where "ord_a = 97"
definition ord_d :: int where "ord_d = 100"
definition ord_space :: int where "ord_space = 32"
definition ord_newline :: int where "ord_newline = 10"
definition ord_q :: int where "ord_q = 113"
definition KEY_DOWN :: int where "KEY_DOWN = 258"
definition KEY_UP :: int where "KEY_UP = 259"
definition KEY_LEFT :: int where "KEY_LEFT = 260"
definition KEY_RIGHT :: int where "KEY_RIGHT = 261"

text \<open>The two branches of \<^verbatim>\<open>handle_input\<close> that shoot and append the bullet, if any.\<close>

definition player1_shoot :: "Game \<Rightarrow> real \<Rightarrow> real \<Rightarrow> Game" where
  "player1_shoot g current_time created =
     (case shoot (player1 g) current_time created of
        (Some bullet, t1) \<Rightarrow> g\<lparr>player1 := t1, bullets := bullets g @ [bullet]\<rparr>
      | (None, t1) \<Rightarrow> g\<lparr>player1 := t1\<rparr>)"

definition player2_shoot :: "Game \<Rightarrow> real \<Rightarrow> real \<Rightarrow> Game" where
  "player2_shoot g current_time created =
     (case shoot (player2 g) current_time created of
        (Some bullet, t1) \<Rightarrow> g\<lparr>player2 := t1, bullets := bullets g @ [bullet]\<rparr>
      | (None, t1) \<Rightarrow> g\<lparr>player2 := t1\<rparr>)"

text \<open>
  \<^verbatim>\<open>Game.handle_input\<close>; \<open>current_time\<close> and \<open>created\<close> are the two readings of the
  clock that a shot makes.
\<close>

definition handle_input :: "Game \<Rightarrow> int \<Rightarrow> real \<Rightarrow> real \<Rightarrow> Game" where
  "handle_input g key current_time created =
     (if key = -1 then g
      else if key = ord_w then g\<lparr>player1 := move (player1 g) 0 (-1) (max_x g) (max_y g)\<rparr>
      else if key = ord_s then g\<lparr>player1 := move (player1 g) 0 1 (max_x g) (max_y g)\<rparr>
      else if key = ord_a then g\<lparr>player1 := move (player1 g) (-1) 0 (max_x g) (max_y g)\<rparr>
      else if key = ord_d then g\<lparr>player1 := move (player1 g) 1 0 (max_x g) (max_y g)\<rparr>
      else if key = ord_space then player1_shoot g current_time created
      else if key = KEY_UP then g\<lparr>player2 := move (player2 g) 0 (-1) (max_x g) (max_y g)\<rparr>
      else if key = KEY_DOWN then g\<lparr>player2 := move (player2 g) 0 1 (max_x g) (max_y g)\<rparr>
      else if key = KEY_LEFT then g\<lparr>player2 := move (player2 g) (-1) 0 (max_x g) (max_y g)\<rparr>
      else if key = KEY_RIGHT then g\<lparr>player2 := move (player2 g) 1 0 (max_x g) (max_y g)\<rparr>
      else if key = ord_newline then player2_shoot g current_time created
      else if key = ord_q then g\<lparr>game_over := True\<rparr>
      else g)"

subsection \<open>Collisions\<close>

text \<open>The test of one bullet against \<^verbatim>\<open>player1\<close> (lines 190 to 195).\<close>

definition collide_player1 :: "Game \<Rightarrow> Bullet \<Rightarrow> Game \<times> Bullet" where
  "collide_player1 g b =
     (if alive (player1 g) \<and> x b = x (player1 g) \<and> y b = y (player1 g) then
        (let g1 = g\<lparr>player1 := hit (player1 g)\<rparr>; b1 = b\<lparr>alive := False\<rparr> in
         if \<not> alive (player1 g1)
         then (g1\<lparr>winner := Some ''Player 2'', game_over := True\<rparr>, b1)
         else (g1, b1))
      else (g, b))"

text \<open>The test of one bullet against \<^verbatim>\<open>player2\<close> (lines 198 to 203).\<close>

definition collide_player2 :: "Game \<Rightarrow> Bullet \<Rightarrow> Game \<times> Bullet" where
  "collide_player2 g b =
     (if alive (player2 g) \<and> x b = x (player2 g) \<and> y b = y (player2 g) then
        (let g1 = g\<lparr>player2 := hit (player2 g)\<rparr>; b1 = b\<lparr>alive := False\<rparr> in
         if \<not> alive (player2 g1)
         then (g1\<lparr>winner := Some ''Player 1'', game_over := True\<rparr>, b1)
         else (g1, b1))
      else (g, b))"

text \<open>The loop over the obstacles for one bullet (lines 206 to 210).\<close>

fun collide_obstacles :: "Bullet \<Rightarrow> Obstacle list \<Rightarrow> Bullet \<times> Obstacle list" where
  "collide_obstacles b [] = (b, [])"
| "collide_obstacles b (obstacle # rest) =
     (if alive obstacle \<and> x b = x obstacle \<and> y b = y obstacle then
        (case collide_obstacles (b\<lparr>alive := False\<rparr>) rest of
           (b1, rest1) \<Rightarrow>
             (b1, (if destructible obstacle then obstacle\<lparr>alive := False\<rparr> else obstacle) # rest1))
      else
        (case collide_obstacles b rest of (b1, rest1) \<Rightarrow> (b1, obstacle # rest1)))"

text \<open>
  The body of the loop over the bullets (lines 186 to 210): a bullet that is not alive
  is passed over, any other is tested against \<^verbatim>\<open>player1\<close>, then \<^verbatim>\<open>player2\<close>, then the
  obstacles.
\<close>

definition collide_bullet :: "Game \<Rightarrow> Bullet \<Rightarrow> Game \<times> Bullet" where
  "collide_bullet g b =
     (if \<not> alive b then (g, b)
      else
        (case collide_player1 g b of
           (g1, b1) \<Rightarrow>
             (case collide_player2 g1 b1 of
                (g2, b2) \<Rightarrow>
                  (case collide_obstacles b2 (obstacles g2) of
                     (b3, obstacles3) \<Rightarrow> (g2\<lparr>obstacles := obstacles3\<rparr>, b3)))))"

text \<open>
  The loop over the bullets (line 185): the game and the bullets after it, in the order
  of the list. The field \<open>bullets\<close> of the game is not read while the loop runs.
\<close>

fun collide_bullets :: "Game \<Rightarrow> Bullet list \<Rightarrow> Game \<times> Bullet list" where
  "collide_bullets g [] = (g, [])"
| "collide_bullets g (b # rest) =
     (case collide_bullet g b of
        (g1, b1) \<Rightarrow>
          (case collide_bullets g1 rest of (g2, rest2) \<Rightarrow> (g2, b1 # rest2)))"

text \<open>\<^verbatim>\<open>Game.check_collisions\<close>: the loop, then the two filters (lines 213 and 215).\<close>

definition check_collisions :: "Game \<Rightarrow> Game" where
  "check_collisions g =
     (case collide_bullets g (bullets g) of
        (g1, bs) \<Rightarrow> g1\<lparr>bullets := filter alive bs, obstacles := filter alive (obstacles g1)\<rparr>)"

subsection \<open>One round of the main loop\<close>

text \<open>
  The loop of \<^verbatim>\<open>Game.update\<close> over the bullets; \<open>clock n\<close> is the reading of the clock
  by the bullet at index \<open>n\<close>.
\<close>

fun update_bullets :: "(nat \<Rightarrow> real) \<Rightarrow> nat \<Rightarrow> int \<Rightarrow> int \<Rightarrow> Bullet list \<Rightarrow> Bullet list" where
  "update_bullets clock n mx my [] = []"
| "update_bullets clock n mx my (b # rest) =
     Bullet_update b (clock n) mx my # update_bullets clock (Suc n) mx my rest"

text \<open>\<^verbatim>\<open>Game.update\<close>\<close>

definition Game_update :: "Game \<Rightarrow> (nat \<Rightarrow> real) \<Rightarrow> Game" where
  "Game_update g clock =
     check_collisions (g\<lparr>bullets := update_bullets clock 0 (max_x g) (max_y g) (bullets g)\<rparr>)"

text \<open>
  The body of the loop of \<^verbatim>\<open>Game.run\<close> for the key that \<^verbatim>\<open>getch\<close> returned:
  \<^verbatim>\<open>handle_input\<close>, then \<^verbatim>\<open>update\<close>. Drawing and sleeping change nothing.
\<close>

definition tick :: "Game \<Rightarrow> int \<Rightarrow> real \<Rightarrow> real \<Rightarrow> (nat \<Rightarrow> real) \<Rightarrow> Game" where
  "tick g key current_time created clock =
     Game_update (handle_input g key current_time created) clock"



text \<open>
  The states of a session: the game that \<^verbatim>\<open>Game.__init__\<close> builds, and the game after
  each round that the loop of \<^verbatim>\<open>Game.run\<close> makes while \<^verbatim>\<open>game_over\<close> is false, for
  any key and any readings of the clock.
\<close>

inductive reachable :: "Game \<Rightarrow> bool" where
  reachable_init:
    "possible_draws my mx draws \<Longrightarrow> init_game my mx draws = Inr g \<Longrightarrow> reachable g"
| reachable_tick:
    "reachable g \<Longrightarrow> \<not> game_over g \<Longrightarrow> reachable (tick g key current_time created clock)"

subsection \<open>The calls that a session makes on one tank\<close>

text \<open>
  A session calls three methods on a tank: \<^verbatim>\<open>move\<close> and \<^verbatim>\<open>shoot\<close> from
  \<^verbatim>\<open>handle_input\<close>, \<^verbatim>\<open>hit\<close> from \<^verbatim>\<open>check_collisions\<close>. \<open>fire_times\<close> runs a
  sequence of such calls and collects the reading \<open>current_time\<close> of every call of
  \<^verbatim>\<open>shoot\<close> that returns a bullet.
\<close>

datatype Tank_call = Call_move int int int int | Call_shoot real real | Call_hit

fun fire_times :: "Tank \<Rightarrow> Tank_call list \<Rightarrow> real list" where
  "fire_times t [] = []"
| "fire_times t (Call_shoot current_time created # rest) =
     (case shoot t current_time created of
        (Some bullet, t1) \<Rightarrow> current_time # fire_times t1 rest
      | (None, t1) \<Rightarrow> fire_times t1 rest)"
| "fire_times t (Call_move dx dy mx my # rest) = fire_times (move t dx dy mx my) rest"
| "fire_times t (Call_hit # rest) = fire_times (hit t) rest"

subsection \<open>Vocabulary for the statements about collisions\<close>

text \<open>
  The test that \<^verbatim>\<open>check_collisions\<close> makes between a bullet and a tank or an obstacle:
  the target is alive and has the coordinates of the bullet.
\<close>

definition struck :: "Bullet \<Rightarrow> 'a GameObject_scheme \<Rightarrow> bool" where
  "struck b target = (alive target \<and> x b = x target \<and> y b = y target)"

text \<open>The cells of the targets that are alive: the two tanks, then the obstacles.\<close>

definition target_cells :: "Game \<Rightarrow> (int \<times> int) list" where
  "target_cells g =
     (if alive (player1 g) then [(x (player1 g), y (player1 g))] else []) @
     (if alive (player2 g) then [(x (player2 g), y (player2 g))] else []) @
     map (\<lambda>ob. (x ob, y ob)) (filter alive (obstacles g))"

text \<open>
  How many targets differ between two games: each tank counts for one, and so does each
  position of the list of obstacles.
\<close>

definition targets_changed :: "Game \<Rightarrow> Game \<Rightarrow> nat" where
  "targets_changed g g1 =
     (if player1 g1 \<noteq> player1 g then 1 else 0) +
     (if player2 g1 \<noteq> player2 g then 1 else 0) +
     length (filter (\<lambda>(ob, ob1). ob1 \<noteq> ob) (zip (obstacles g) (obstacles g1)))"

text \<open>
  The health of a tank is from 0 to 3, and the tank is alive exactly when its health is
  positive.
\<close>

definition tank_ok :: "Tank \<Rightarrow> bool" where
  "tank_ok t = (0 \<le> health t \<and> health t \<le> 3 \<and> (alive t \<longleftrightarrow> health t > 0))"

text \<open>
  From one list of obstacles to the other, every obstacle keeps its place, its cell and
  its flag \<open>destructible\<close>, and none comes back to life.
\<close>

definition obstacles_decay :: "Obstacle list \<Rightarrow> Obstacle list \<Rightarrow> bool" where
  "obstacles_decay os os1 =
     (length os1 = length os \<and>
      (\<forall>j < length os. x (os1 ! j) = x (os ! j) \<and> y (os1 ! j) = y (os ! j) \<and>
         destructible (os1 ! j) = destructible (os ! j) \<and> (alive (os1 ! j) \<longrightarrow> alive (os ! j))))"

text \<open>
  A cell strictly inside the border of a playfield \<open>mx\<close> wide and \<open>my\<close> high, the test of
  \<^verbatim>\<open>Tank.move\<close>; and a cell in the first or last column or row, where the border is
  drawn.
\<close>

definition inside :: "int \<Rightarrow> int \<Rightarrow> 'a GameObject_scheme \<Rightarrow> bool" where
  "inside mx my ob = (0 < x ob \<and> x ob < mx - 1 \<and> 0 < y ob \<and> y ob < my - 1)"

definition on_border :: "int \<Rightarrow> int \<Rightarrow> 'a GameObject_scheme \<Rightarrow> bool" where
  "on_border mx my ob = (x ob = 0 \<or> x ob = mx - 1 \<or> y ob = 0 \<or> y ob = my - 1)"

text \<open>Both tanks and all obstacles are strictly inside the border.\<close>

definition field_ok :: "Game \<Rightarrow> bool" where
  "field_ok g =
     (inside (max_x g) (max_y g) (player1 g) \<and> inside (max_x g) (max_y g) (player2 g) \<and>
      list_all (inside (max_x g) (max_y g)) (obstacles g))"

text \<open>
  A game on a screen of 6 rows and 40 columns, with \<^verbatim>\<open>player1\<close> in row \<open>py\<close>: for
  \<open>py = 3\<close> the game that \<^verbatim>\<open>Game.__init__\<close> builds when every draw is \<open>(12, 3)\<close>.
\<close>

definition small_game :: "int \<Rightarrow> Game" where
  "small_game py =
     \<lparr>max_y = 6, max_x = 40,
      player1 = Tank_init 5 py ''^'' 1, player2 = Tank_init 35 3 ''^'' 2,
      bullets = [], obstacles = replicate 20 (Obstacle_init 12 3),
      game_over = False, winner = None\<rparr>"

section \<open>Properties\<close>

subsection \<open>Tanks\<close>

lemma move_keeps_cooldown:
  "shot_cooldown (move t dx dy mx my) = shot_cooldown t \<and>
   last_shot_time (move t dx dy mx my) = last_shot_time t"
  by (simp add: move_def Let_def)

lemma hit_keeps_cooldown:
  "shot_cooldown (hit t) = shot_cooldown t \<and> last_shot_time (hit t) = last_shot_time t"
  by (simp add: hit_def Let_def)

lemma shoot_cases:
  "shoot t now c =
     (if now - last_shot_time t > shot_cooldown t
      then (Some (Bullet_init (x t + fst (direction_value (direction t)))
                    (y t + snd (direction_value (direction t))) (direction t) c),
            t\<lparr>last_shot_time := now\<rparr>)
      else (None, t))"
  by (simp add: shoot_def can_shoot_def split: prod.splits)

lemma fire_times_after:
  "0 \<le> shot_cooldown t \<Longrightarrow> u \<in> set (fire_times t calls) \<Longrightarrow> u - last_shot_time t > shot_cooldown t"
proof (induction t calls rule: fire_times.induct)
  case (1 t)
  then show ?case by simp
next
  case (2 t current_time created rest)
  show ?case
  proof (cases "current_time - last_shot_time t > shot_cooldown t")
    case True
    with 2 show ?thesis by (fastforce simp: shoot_cases)
  next
    case False
    with 2 show ?thesis by (simp add: shoot_cases)
  qed
next
  case (3 t dx dy mx my rest)
  then show ?case by (simp add: move_keeps_cooldown)
next
  case (4 t rest)
  then show ?case by (simp add: hit_keeps_cooldown)
qed

lemma fire_times_spaced:
  "0 \<le> shot_cooldown t \<Longrightarrow>
   successively (\<lambda>t1 t2. t2 - t1 > shot_cooldown t) (fire_times t calls)"
proof (induction t calls rule: fire_times.induct)
  case (1 t)
  then show ?case by simp
next
  case (2 t current_time created rest)
  show ?case
  proof (cases "current_time - last_shot_time t > shot_cooldown t")
    case True
    let ?t1 = "t\<lparr>last_shot_time := current_time\<rparr>"
    have a: "successively (\<lambda>t1 t2. t2 - t1 > shot_cooldown t) (fire_times ?t1 rest)"
      using 2 True by (simp add: shoot_cases)
    have b: "\<forall>u\<in>set (fire_times ?t1 rest). u - current_time > shot_cooldown t"
      using fire_times_after [of ?t1 _ rest] 2(3) by simp
    have "successively (\<lambda>t1 t2. t2 - t1 > shot_cooldown t) (current_time # fire_times ?t1 rest)"
      using a b by (cases "fire_times ?t1 rest") simp_all
    then show ?thesis using True by (simp add: shoot_cases)
  next
    case False
    with 2 show ?thesis by (simp add: shoot_cases)
  qed
next
  case (3 t dx dy mx my rest)
  then show ?case by (simp add: move_keeps_cooldown)
next
  case (4 t rest)
  then show ?case by (simp add: hit_keeps_cooldown)
qed

text \<open>
  C4. With the cooldown of \<open>0.5\<close> that the constructor sets, \<^verbatim>\<open>can_shoot\<close> returns
  true exactly when the reading of the clock is more than \<open>0.5\<close> after the last
  recorded shot; it then records the reading, and otherwise leaves the tank as it is.
  \<^verbatim>\<open>shoot\<close> returns a bullet exactly when \<^verbatim>\<open>can_shoot\<close> is true. Hence in every
  sequence of calls on a tank, two successful shots that follow one another are more
  than \<open>0.5\<close> apart.
\<close>

theorem can_shoot_cooldown:
  assumes "shot_cooldown t = 0.5"
  shows "(fst (can_shoot t now) \<longleftrightarrow> now - last_shot_time t > 0.5) \<and>
         (fst (can_shoot t now) \<longrightarrow> snd (can_shoot t now) = t\<lparr>last_shot_time := now\<rparr>) \<and>
         (\<not> fst (can_shoot t now) \<longrightarrow> snd (can_shoot t now) = t) \<and>
         (fst (shoot t now created) \<noteq> None \<longleftrightarrow> fst (can_shoot t now)) \<and>
         snd (shoot t now created) = snd (can_shoot t now) \<and>
         successively (\<lambda>t1 t2. t2 - t1 > 0.5) (fire_times t calls)"
proof -
  have "0 \<le> shot_cooldown t" using assms by simp
  then have "successively (\<lambda>t1 t2. t2 - t1 > shot_cooldown t) (fire_times t calls)"
    by (rule fire_times_spaced)
  then have spaced: "successively (\<lambda>t1 t2. t2 - t1 > 0.5) (fire_times t calls)"
    unfolding assms .
  have "(fst (can_shoot t now) \<longleftrightarrow> now - last_shot_time t > 0.5) \<and>
         (fst (can_shoot t now) \<longrightarrow> snd (can_shoot t now) = t\<lparr>last_shot_time := now\<rparr>) \<and>
         (\<not> fst (can_shoot t now) \<longrightarrow> snd (can_shoot t now) = t) \<and>
         (fst (shoot t now created) \<noteq> None \<longleftrightarrow> fst (can_shoot t now)) \<and>
         snd (shoot t now created) = snd (can_shoot t now)"
    using assms by (simp add: can_shoot_def shoot_cases)
  with spaced show ?thesis by blast
qed

theorem can_shoot_cooldown_witness:
  "shot_cooldown (Tank_init 5 10 ''^'' 1) = 0.5 \<and>
   fst (can_shoot (Tank_init 5 10 ''^'' 1) 1) \<and>
   \<not> fst (can_shoot (snd (can_shoot (Tank_init 5 10 ''^'' 1) 1)) 1.5) \<and>
   fire_times (Tank_init 5 10 ''^'' 1)
     [Call_shoot 1 1, Call_shoot 1.5 1.5, Call_move 0 1 40 20, Call_shoot 1.6 1.6] = [1, 1.6] \<and>
   successively (\<lambda>t1 t2. t2 - t1 > 0.5)
     (fire_times (Tank_init 5 10 ''^'' 1)
        [Call_shoot 1 1, Call_shoot 1.5 1.5, Call_move 0 1 40 20, Call_shoot 1.6 1.6])"
  using can_shoot_cooldown [of "Tank_init 5 10 ''^'' 1" 1 1
      "[Call_shoot 1 1, Call_shoot 1.5 1.5, Call_move 0 1 40 20, Call_shoot 1.6 1.6]"]
  by (simp add: Tank_init_def can_shoot_def shoot_cases move_def)

text \<open>
  C3. For a step of one cell along one axis: when the cell stepped to is not strictly
  inside the border (\<open>0 < x < width - 1\<close> and \<open>0 < y < height - 1\<close>), \<^verbatim>\<open>move\<close>
  returns the tank unchanged; otherwise the tank is at that cell, which is strictly
  inside the border, its heading is the direction of the step and its glyph is the
  marker of that heading.
\<close>

theorem move_border_check:
  assumes "\<bar>dx\<bar> + \<bar>dy\<bar> = 1"
  shows "(\<not> (0 < x t + dx \<and> x t + dx < mx - 1 \<and> 0 < y t + dy \<and> y t + dy < my - 1) \<longrightarrow>
            move t dx dy mx my = t) \<and>
         (0 < x t + dx \<and> x t + dx < mx - 1 \<and> 0 < y t + dy \<and> y t + dy < my - 1 \<longrightarrow>
            x (move t dx dy mx my) = x t + dx \<and> y (move t dx dy mx my) = y t + dy \<and>
            0 < x (move t dx dy mx my) \<and> x (move t dx dy mx my) < mx - 1 \<and>
            0 < y (move t dx dy mx my) \<and> y (move t dx dy mx my) < my - 1 \<and>
            direction_value (direction (move t dx dy mx my)) = (dx, dy) \<and>
            symbol (move t dx dy mx my) =
              (case direction (move t dx dy mx my) of
                 UP \<Rightarrow> ''^'' | DOWN \<Rightarrow> ''v'' | LEFT \<Rightarrow> ''<'' | RIGHT \<Rightarrow> ''>''))"
proof -
  from assms have "(dx = 0 \<and> dy = -1) \<or> (dx = 0 \<and> dy = 1) \<or> (dx = -1 \<and> dy = 0) \<or> (dx = 1 \<and> dy = 0)"
    by arith
  then show ?thesis
    by (elim disjE) (simp_all add: move_def Let_def)
qed

theorem move_border_check_witness:
  "\<bar>0::int\<bar> + \<bar>-1::int\<bar> = 1 \<and>
   move (Tank_init 5 1 ''^'' 1) 0 (-1) 40 20 = Tank_init 5 1 ''^'' 1 \<and>
   x (move (Tank_init 5 10 ''>'' 1) 0 (-1) 40 20) = 5 \<and>
   y (move (Tank_init 5 10 ''>'' 1) 0 (-1) 40 20) = 9 \<and>
   direction (move (Tank_init 5 10 ''>'' 1) 0 (-1) 40 20) = UP \<and>
   symbol (move (Tank_init 5 10 ''>'' 1) 0 (-1) 40 20) = ''^''"
  using move_border_check [of 0 "-1" "Tank_init 5 1 ''^'' 1" 40 20]
        move_border_check [of 0 "-1" "Tank_init 5 10 ''>'' 1" 40 20]
  by (simp add: Tank_init_def move_def)

subsection \<open>Bullets and collisions\<close>


lemma Bullet_update_cases:
  "Bullet_update b now mx my =
     (if now - last_move_time b > speed b then
        b\<lparr>x := x b + fst (direction_value (bullet_direction b)),
          y := y b + snd (direction_value (bullet_direction b)),
          last_move_time := now,
          alive := alive b \<and>
            \<not> (x b + fst (direction_value (bullet_direction b)) \<le> 0 \<or>
               x b + fst (direction_value (bullet_direction b)) \<ge> mx - 1 \<or>
               y b + snd (direction_value (bullet_direction b)) \<le> 0 \<or>
               y b + snd (direction_value (bullet_direction b)) \<ge> my - 1)\<rparr>
      else b)"
  by (auto simp: Bullet_update_def Let_def split: prod.splits)

lemma collide_obstacles_closed:
  "collide_obstacles b os =
     (if list_ex (\<lambda>ob. alive ob \<and> x b = x ob \<and> y b = y ob) os then b\<lparr>alive := False\<rparr> else b,
      map (\<lambda>ob. if alive ob \<and> x b = x ob \<and> y b = y ob \<and> destructible ob
                then ob\<lparr>alive := False\<rparr> else ob) os)"
  by (induction os arbitrary: b) simp_all

lemma collide_player1_closed:
  "collide_player1 g b =
     (if alive (player1 g) \<and> x b = x (player1 g) \<and> y b = y (player1 g) then
        (if alive (hit (player1 g)) then g\<lparr>player1 := hit (player1 g)\<rparr>
         else g\<lparr>player1 := hit (player1 g), winner := Some ''Player 2'', game_over := True\<rparr>,
         b\<lparr>alive := False\<rparr>)
      else (g, b))"
  by (simp add: collide_player1_def Let_def)

lemma collide_player2_closed:
  "collide_player2 g b =
     (if alive (player2 g) \<and> x b = x (player2 g) \<and> y b = y (player2 g) then
        (if alive (hit (player2 g)) then g\<lparr>player2 := hit (player2 g)\<rparr>
         else g\<lparr>player2 := hit (player2 g), winner := Some ''Player 1'', game_over := True\<rparr>,
         b\<lparr>alive := False\<rparr>)
      else (g, b))"
  by (simp add: collide_player2_def Let_def)


lemma collide_bullets_Cons:
  "collide_bullets g (b # rest) =
     (fst (collide_bullets (fst (collide_bullet g b)) rest),
      snd (collide_bullet g b) # snd (collide_bullets (fst (collide_bullet g b)) rest))"
  by (simp split: prod.splits)








subsection \<open>Input\<close>

lemma player_shoot_fields:
  "player2 (player1_shoot g ct cr) = player2 g \<and> game_over (player1_shoot g ct cr) = game_over g \<and>
   player1 (player2_shoot g ct cr) = player1 g \<and> game_over (player2_shoot g ct cr) = game_over g"
  by (simp add: player1_shoot_def player2_shoot_def shoot_cases)

lemma handle_input_dispatch:
  "handle_input g key ct cr \<in>
     {g,
      g\<lparr>player1 := move (player1 g) 0 (-1) (max_x g) (max_y g)\<rparr>,
      g\<lparr>player1 := move (player1 g) 0 1 (max_x g) (max_y g)\<rparr>,
      g\<lparr>player1 := move (player1 g) (-1) 0 (max_x g) (max_y g)\<rparr>,
      g\<lparr>player1 := move (player1 g) 1 0 (max_x g) (max_y g)\<rparr>,
      player1_shoot g ct cr,
      g\<lparr>player2 := move (player2 g) 0 (-1) (max_x g) (max_y g)\<rparr>,
      g\<lparr>player2 := move (player2 g) 0 1 (max_x g) (max_y g)\<rparr>,
      g\<lparr>player2 := move (player2 g) (-1) 0 (max_x g) (max_y g)\<rparr>,
      g\<lparr>player2 := move (player2 g) 1 0 (max_x g) (max_y g)\<rparr>,
      player2_shoot g ct cr,
      g\<lparr>game_over := True\<rparr>}"
  unfolding handle_input_def
  by (simp only: insert_iff split: if_split) blast





subsection \<open>The collision loop, one bullet at a time\<close>

lemma collide_bullet_dead: "\<not> alive b \<Longrightarrow> collide_bullet g b = (g, b)"
  by (simp add: collide_bullet_def)

lemma collide_bullet_alive:
  "alive b \<Longrightarrow> collide_bullet g b =
     ((fst (collide_player2 (fst (collide_player1 g b)) (snd (collide_player1 g b))))
        \<lparr>obstacles :=
           snd (collide_obstacles
                  (snd (collide_player2 (fst (collide_player1 g b)) (snd (collide_player1 g b))))
                  (obstacles (fst (collide_player2 (fst (collide_player1 g b))
                                     (snd (collide_player1 g b))))))\<rparr>,
      fst (collide_obstacles
             (snd (collide_player2 (fst (collide_player1 g b)) (snd (collide_player1 g b))))
             (obstacles (fst (collide_player2 (fst (collide_player1 g b))
                                (snd (collide_player1 g b)))))))"
  by (simp add: collide_bullet_def split: prod.splits)

lemma collide_player1_fields:
  "player1 (fst (collide_player1 g b)) = (if struck b (player1 g) then hit (player1 g) else player1 g) \<and>
   player2 (fst (collide_player1 g b)) = player2 g \<and>
   obstacles (fst (collide_player1 g b)) = obstacles g \<and>
   max_x (fst (collide_player1 g b)) = max_x g \<and>
   max_y (fst (collide_player1 g b)) = max_y g \<and>
   bullets (fst (collide_player1 g b)) = bullets g \<and>
   x (snd (collide_player1 g b)) = x b \<and> y (snd (collide_player1 g b)) = y b \<and>
   alive (snd (collide_player1 g b)) = (alive b \<and> \<not> struck b (player1 g))"
  by (simp add: collide_player1_closed struck_def)

lemma collide_player2_fields:
  "player2 (fst (collide_player2 g b)) = (if struck b (player2 g) then hit (player2 g) else player2 g) \<and>
   player1 (fst (collide_player2 g b)) = player1 g \<and>
   obstacles (fst (collide_player2 g b)) = obstacles g \<and>
   max_x (fst (collide_player2 g b)) = max_x g \<and>
   max_y (fst (collide_player2 g b)) = max_y g \<and>
   bullets (fst (collide_player2 g b)) = bullets g \<and>
   x (snd (collide_player2 g b)) = x b \<and> y (snd (collide_player2 g b)) = y b \<and>
   alive (snd (collide_player2 g b)) = (alive b \<and> \<not> struck b (player2 g))"
  by (simp add: collide_player2_closed struck_def)

lemma collide_obstacles_fields:
  "snd (collide_obstacles b os) =
     map (\<lambda>ob. if struck b ob \<and> destructible ob then ob\<lparr>alive := False\<rparr> else ob) os \<and>
   x (fst (collide_obstacles b os)) = x b \<and> y (fst (collide_obstacles b os)) = y b \<and>
   alive (fst (collide_obstacles b os)) = (alive b \<and> \<not> list_ex (struck b) os)"
  by (auto simp: collide_obstacles_closed struck_def list_ex_iff)

lemma struck_after:
  "struck (snd (collide_player1 g b)) t = struck b t \<and>
   struck (snd (collide_player2 g b)) t = struck b t \<and>
   struck (fst (collide_obstacles b os)) t = struck b t"
  by (simp add: struck_def collide_player1_fields collide_player2_fields collide_obstacles_fields)

lemma struck_after_fun:
  "struck (snd (collide_player1 g b)) = struck b \<and>
   struck (snd (collide_player2 g b)) = struck b \<and>
   struck (fst (collide_obstacles b os)) = struck b"
  by (intro conjI ext) (simp_all add: struck_after)

lemma collide_player1_struck:
  "collide_player1 g b =
     (if struck b (player1 g) then
        (if alive (hit (player1 g)) then g\<lparr>player1 := hit (player1 g)\<rparr>
         else g\<lparr>player1 := hit (player1 g), winner := Some ''Player 2'', game_over := True\<rparr>,
         b\<lparr>alive := False\<rparr>)
      else (g, b))"
  by (simp add: collide_player1_closed struck_def)

lemma collide_player2_struck:
  "collide_player2 g b =
     (if struck b (player2 g) then
        (if alive (hit (player2 g)) then g\<lparr>player2 := hit (player2 g)\<rparr>
         else g\<lparr>player2 := hit (player2 g), winner := Some ''Player 1'', game_over := True\<rparr>,
         b\<lparr>alive := False\<rparr>)
      else (g, b))"
  by (simp add: collide_player2_closed struck_def)

lemma collide_player1_winner:
  "game_over (fst (collide_player1 g b)) =
     (game_over g \<or> (struck b (player1 g) \<and> \<not> alive (hit (player1 g)))) \<and>
   winner (fst (collide_player1 g b)) =
     (if struck b (player1 g) \<and> \<not> alive (hit (player1 g)) then Some ''Player 2'' else winner g)"
  by (simp add: collide_player1_struck)

lemma collide_player2_winner:
  "game_over (fst (collide_player2 g b)) =
     (game_over g \<or> (struck b (player2 g) \<and> \<not> alive (hit (player2 g)))) \<and>
   winner (fst (collide_player2 g b)) =
     (if struck b (player2 g) \<and> \<not> alive (hit (player2 g)) then Some ''Player 1'' else winner g)"
  by (simp add: collide_player2_struck)

lemma collide_bullet_player1:
  "player1 (fst (collide_bullet g b)) =
     (if alive b \<and> struck b (player1 g) then hit (player1 g) else player1 g)"
  by (cases "alive b")
     (simp_all add: collide_bullet_dead collide_bullet_alive collide_player1_fields
        collide_player2_fields)

lemma collide_bullet_player2:
  "player2 (fst (collide_bullet g b)) =
     (if alive b \<and> struck b (player2 g) then hit (player2 g) else player2 g)"
  by (cases "alive b")
     (simp_all add: collide_bullet_dead collide_bullet_alive collide_player1_fields
        collide_player2_fields struck_after)

lemma collide_bullet_obstacles:
  "obstacles (fst (collide_bullet g b)) =
     map (\<lambda>ob. if alive b \<and> struck b ob \<and> destructible ob then ob\<lparr>alive := False\<rparr> else ob)
       (obstacles g)"
  by (cases "alive b")
     (simp_all add: collide_bullet_dead collide_bullet_alive collide_player1_fields
        collide_player2_fields collide_obstacles_fields struck_after)

lemma collide_bullet_marks:
  "alive (snd (collide_bullet g b)) =
     (alive b \<and> \<not> struck b (player1 g) \<and> \<not> struck b (player2 g) \<and>
      \<not> list_ex (struck b) (obstacles g))"
  by (cases "alive b")
     (simp_all add: collide_bullet_dead collide_bullet_alive collide_player1_fields
        collide_player2_fields collide_obstacles_fields struck_after_fun)

lemma collide_bullet_frame:
  "max_x (fst (collide_bullet g b)) = max_x g \<and> max_y (fst (collide_bullet g b)) = max_y g \<and>
   bullets (fst (collide_bullet g b)) = bullets g"
  by (cases "alive b")
     (simp_all add: collide_bullet_dead collide_bullet_alive collide_player1_fields
        collide_player2_fields)

lemma collide_bullet_winner:
  "game_over (fst (collide_bullet g b)) =
     (game_over g \<or> (alive b \<and> struck b (player1 g) \<and> \<not> alive (hit (player1 g)))
                 \<or> (alive b \<and> struck b (player2 g) \<and> \<not> alive (hit (player2 g)))) \<and>
   winner (fst (collide_bullet g b)) =
     (if alive b \<and> struck b (player2 g) \<and> \<not> alive (hit (player2 g)) then Some ''Player 1''
      else if alive b \<and> struck b (player1 g) \<and> \<not> alive (hit (player1 g)) then Some ''Player 2''
      else winner g)"
  by (cases "alive b")
     (simp_all add: collide_bullet_dead collide_bullet_alive collide_player1_fields
        collide_player2_fields collide_player1_winner collide_player2_winner struck_after)

subsection \<open>How many targets one bullet hits\<close>

lemma distinct_count_le_1: "distinct cs \<Longrightarrow> count_list cs c \<le> 1"
  by (induction cs) auto

lemma hit_cell: "x (hit t) = x t \<and> y (hit t) = y t \<and> (alive (hit t) \<longrightarrow> alive t)"
  by (simp add: hit_def Let_def)

lemma changed_obstacles_le:
  "length (filter (\<lambda>(ob, ob1). ob1 \<noteq> ob)
     (zip os (map (\<lambda>ob. if c \<and> struck b ob \<and> destructible ob then ob\<lparr>alive := False\<rparr> else ob) os)))
   \<le> count_list (map (\<lambda>ob. (x ob, y ob)) (filter alive os)) (x b, y b)"
  by (induction os) (auto simp: struck_def)

lemma targets_changed_le:
  "targets_changed g (fst (collide_bullet g b)) \<le> count_list (target_cells g) (x b, y b)"
proof -
  have p1: "(if player1 (fst (collide_bullet g b)) \<noteq> player1 g then 1 else 0)
            \<le> count_list (if alive (player1 g) then [(x (player1 g), y (player1 g))] else []) (x b, y b)"
    by (simp add: collide_bullet_player1 struck_def)
  have p2: "(if player2 (fst (collide_bullet g b)) \<noteq> player2 g then 1 else 0)
            \<le> count_list (if alive (player2 g) then [(x (player2 g), y (player2 g))] else []) (x b, y b)"
    by (simp add: collide_bullet_player2 struck_def)
  have p3: "length (filter (\<lambda>(ob, ob1). ob1 \<noteq> ob)
              (zip (obstacles g) (obstacles (fst (collide_bullet g b)))))
            \<le> count_list (map (\<lambda>ob. (x ob, y ob)) (filter alive (obstacles g))) (x b, y b)"
    unfolding collide_bullet_obstacles by (rule changed_obstacles_le)
  from p1 p2 p3 show ?thesis
    unfolding targets_changed_def target_cells_def count_list_append by linarith
qed

lemma alive_after_kill:
  "map (\<lambda>ob. (x ob, y ob))
     (filter alive (map (\<lambda>ob. if K ob then ob\<lparr>alive := False\<rparr> else ob) os)) =
   map (\<lambda>ob. (x ob, y ob)) (filter (\<lambda>ob. \<not> K ob) (filter alive os))"
  by (induction os) auto

lemma tank_cell_after:
  "set (if alive (if c then hit t else t) then [(x (if c then hit t else t), y (if c then hit t else t))] else [])
     \<subseteq> set (if alive t then [(x t, y t)] else [])"
  using hit_cell [of t] by auto

lemma distinct_append3_subset:
  "distinct (A @ B @ C) \<Longrightarrow> set A1 \<subseteq> set A \<Longrightarrow> set B1 \<subseteq> set B \<Longrightarrow> set C1 \<subseteq> set C \<Longrightarrow>
   distinct A1 \<Longrightarrow> distinct B1 \<Longrightarrow> distinct C1 \<Longrightarrow> distinct (A1 @ B1 @ C1)"
  by auto

lemma set_map_filter_subset: "set (map f (filter P cs)) \<subseteq> set (map f cs)"
  by auto

lemma distinct_append3_last: "distinct (A @ B @ C) \<Longrightarrow> distinct C"
  by simp

lemma target_cells_distinct:
  assumes "distinct (target_cells g)"
  shows "distinct (target_cells (fst (collide_bullet g b)))"
proof -
  let ?A = "if alive (player1 g) then [(x (player1 g), y (player1 g))] else []"
  let ?B = "if alive (player2 g) then [(x (player2 g), y (player2 g))] else []"
  let ?C = "map (\<lambda>ob. (x ob, y ob)) (filter alive (obstacles g))"
  let ?g1 = "fst (collide_bullet g b)"
  let ?A1 = "if alive (player1 ?g1) then [(x (player1 ?g1), y (player1 ?g1))] else []"
  let ?B1 = "if alive (player2 ?g1) then [(x (player2 ?g1), y (player2 ?g1))] else []"
  let ?C1 = "map (\<lambda>ob. (x ob, y ob)) (filter alive (obstacles ?g1))"
  have a: "set ?A1 \<subseteq> set ?A" unfolding collide_bullet_player1 by (rule tank_cell_after)
  have b: "set ?B1 \<subseteq> set ?B" unfolding collide_bullet_player2 by (rule tank_cell_after)
  have c: "?C1 = map (\<lambda>ob. (x ob, y ob))
                  (filter (\<lambda>ob. \<not> (alive b \<and> struck b ob \<and> destructible ob)) (filter alive (obstacles g)))"
    unfolding collide_bullet_obstacles by (rule alive_after_kill)
  have c1: "set ?C1 \<subseteq> set ?C" unfolding c by (rule set_map_filter_subset)
  have da: "distinct ?A1" by simp
  have db: "distinct ?B1" by simp
  have d: "distinct (?A @ ?B @ ?C)"
    using assms unfolding target_cells_def .
  then have "distinct ?C" by (rule distinct_append3_last)
  then have dc: "distinct ?C1" unfolding c by (rule distinct_map_filter)
  have "distinct (?A1 @ ?B1 @ ?C1)"
    by (rule distinct_append3_subset [OF d a b c1 da db dc])
  then show ?thesis unfolding target_cells_def .
qed

lemmas collision_eval =
  check_collisions_def collide_bullet_def collide_player1_def collide_player2_def hit_def
  Tank_init_def Bullet_init_def Obstacle_init_def Let_def

text \<open>
  C1, as stated, fails: with both tanks and an obstacle on the cell \<open>(12, 10)\<close> and one
  bullet there, \<^verbatim>\<open>check_collisions\<close> takes one health point from each tank and removes
  the obstacle. The test against \<^verbatim>\<open>player2\<close> is an \<^verbatim>\<open>if\<close> of its own and the loop
  over the obstacles has no exit, so the tests that follow a match are still made.
\<close>

theorem one_bullet_three_targets_counterexample:
  "health (Tank_init 12 10 ''^'' 1) = 3 \<and> health (Tank_init 12 10 ''^'' 2) = 3 \<and>
   health (player1 (check_collisions
     \<lparr>max_y = 20, max_x = 40,
        player1 = Tank_init 12 10 ''^'' 1, player2 = Tank_init 12 10 ''^'' 2,
        bullets = [Bullet_init 12 10 LEFT 4], obstacles = [Obstacle_init 12 10],
        game_over = False, winner = None\<rparr>)) = 2 \<and>
   health (player2 (check_collisions
     \<lparr>max_y = 20, max_x = 40,
        player1 = Tank_init 12 10 ''^'' 1, player2 = Tank_init 12 10 ''^'' 2,
        bullets = [Bullet_init 12 10 LEFT 4], obstacles = [Obstacle_init 12 10],
        game_over = False, winner = None\<rparr>)) = 2 \<and>
   obstacles (check_collisions
     \<lparr>max_y = 20, max_x = 40,
        player1 = Tank_init 12 10 ''^'' 1, player2 = Tank_init 12 10 ''^'' 2,
        bullets = [Bullet_init 12 10 LEFT 4], obstacles = [Obstacle_init 12 10],
        game_over = False, winner = None\<rparr>) = []"
  by (simp add: collision_eval)

text \<open>
  C1, amended. In the collision loop a bullet that is not alive is passed over. A bullet
  that is alive is tested against \<^verbatim>\<open>player1\<close>, \<^verbatim>\<open>player2\<close> and every obstacle, in
  that order and whatever the earlier tests gave: every live tank on its cell is hit,
  every live destructible obstacle on its cell is destroyed, and the bullet is alive
  afterwards exactly when no test matched. When the live targets are on pairwise
  different cells, one bullet changes at most one target, and the live targets are
  still on pairwise different cells for the next bullet.
\<close>

theorem collide_bullet_targets:
  "(\<not> alive b \<longrightarrow> collide_bullet g b = (g, b)) \<and>
   player1 (fst (collide_bullet g b)) =
     (if alive b \<and> struck b (player1 g) then hit (player1 g) else player1 g) \<and>
   player2 (fst (collide_bullet g b)) =
     (if alive b \<and> struck b (player2 g) then hit (player2 g) else player2 g) \<and>
   obstacles (fst (collide_bullet g b)) =
     map (\<lambda>ob. if alive b \<and> struck b ob \<and> destructible ob then ob\<lparr>alive := False\<rparr> else ob)
       (obstacles g) \<and>
   alive (snd (collide_bullet g b)) =
     (alive b \<and> \<not> struck b (player1 g) \<and> \<not> struck b (player2 g) \<and>
      \<not> list_ex (struck b) (obstacles g)) \<and>
   (distinct (target_cells g) \<longrightarrow>
      targets_changed g (fst (collide_bullet g b)) \<le> 1 \<and>
      distinct (target_cells (fst (collide_bullet g b))))"
proof -
  have "distinct (target_cells g) \<longrightarrow> targets_changed g (fst (collide_bullet g b)) \<le> 1"
    using targets_changed_le [of g b] distinct_count_le_1 [of "target_cells g" "(x b, y b)"]
    by linarith
  then show ?thesis
    by (intro conjI impI collide_bullet_player1 collide_bullet_player2 collide_bullet_obstacles
          collide_bullet_marks collide_bullet_dead target_cells_distinct) simp_all
qed

theorem collide_bullet_targets_witness:
  "distinct (target_cells
     \<lparr>max_y = 20, max_x = 40,
        player1 = Tank_init 5 10 ''^'' 1, player2 = Tank_init 35 10 ''^'' 2,
        bullets = [Bullet_init 35 10 RIGHT 4], obstacles = [Obstacle_init 12 4],
        game_over = False, winner = None\<rparr>) \<and>
   targets_changed
     \<lparr>max_y = 20, max_x = 40,
        player1 = Tank_init 5 10 ''^'' 1, player2 = Tank_init 35 10 ''^'' 2,
        bullets = [Bullet_init 35 10 RIGHT 4], obstacles = [Obstacle_init 12 4],
        game_over = False, winner = None\<rparr>
     (fst (collide_bullet
     \<lparr>max_y = 20, max_x = 40,
        player1 = Tank_init 5 10 ''^'' 1, player2 = Tank_init 35 10 ''^'' 2,
        bullets = [Bullet_init 35 10 RIGHT 4], obstacles = [Obstacle_init 12 4],
        game_over = False, winner = None\<rparr> (Bullet_init 35 10 RIGHT 4))) = 1 \<and>
   \<not> alive (snd (collide_bullet
     \<lparr>max_y = 20, max_x = 40,
        player1 = Tank_init 5 10 ''^'' 1, player2 = Tank_init 35 10 ''^'' 2,
        bullets = [Bullet_init 35 10 RIGHT 4], obstacles = [Obstacle_init 12 4],
        game_over = False, winner = None\<rparr> (Bullet_init 35 10 RIGHT 4)))"
  using collide_bullet_targets [of "Bullet_init 35 10 RIGHT 4"
     "\<lparr>max_y = 20, max_x = 40,
        player1 = Tank_init 5 10 ''^'' 1, player2 = Tank_init 35 10 ''^'' 2,
        bullets = [Bullet_init 35 10 RIGHT 4], obstacles = [Obstacle_init 12 4],
        game_over = False, winner = None\<rparr>"]
  by (simp add: collision_eval target_cells_def targets_changed_def struck_def)

subsection \<open>The whole collision loop and the two filters\<close>

lemma collide_bullets_length: "length (snd (collide_bullets g bs)) = length bs"
  by (induction bs arbitrary: g) (simp_all only: collide_bullets.simps(1) collide_bullets_Cons snd_conv list.size)

lemma collide_bullets_append:
  "collide_bullets g (bs @ cs) =
     (fst (collide_bullets (fst (collide_bullets g bs)) cs),
      snd (collide_bullets g bs) @ snd (collide_bullets (fst (collide_bullets g bs)) cs))"
proof (induction bs arbitrary: g)
  case Nil
  show ?case by simp
next
  case (Cons b bs)
  show ?case
    unfolding append_Cons collide_bullets_Cons Cons fst_conv snd_conv by simp
qed

lemma obstacles_decay_refl: "obstacles_decay os os"
  by (simp add: obstacles_decay_def)

lemma obstacles_decay_trans:
  "obstacles_decay os os1 \<Longrightarrow> obstacles_decay os1 os2 \<Longrightarrow> obstacles_decay os os2"
  by (simp add: obstacles_decay_def)

lemma obstacles_decay_step: "obstacles_decay (obstacles g) (obstacles (fst (collide_bullet g b)))"
  by (simp add: obstacles_decay_def collide_bullet_obstacles)

lemma obstacles_decay_loop: "obstacles_decay (obstacles g) (obstacles (fst (collide_bullets g bs)))"
proof (induction bs arbitrary: g)
  case Nil
  show ?case by (simp add: obstacles_decay_refl)
next
  case (Cons b bs)
  have "obstacles_decay (obstacles g) (obstacles (fst (collide_bullets (fst (collide_bullet g b)) bs)))"
    by (rule obstacles_decay_trans [OF obstacles_decay_step Cons])
  then show ?case unfolding collide_bullets_Cons fst_conv .
qed

lemma obstacles_decay_dead:
  "obstacles_decay os os1 \<Longrightarrow> j < length os \<Longrightarrow> \<not> alive (os ! j) \<Longrightarrow> \<not> alive (os1 ! j)"
  unfolding obstacles_decay_def by blast

lemma obstacles_decay_length: "obstacles_decay os os1 \<Longrightarrow> length os1 = length os"
  unfolding obstacles_decay_def by blast

lemma obstacles_decay_destructible:
  "obstacles_decay os os1 \<Longrightarrow> j < length os \<Longrightarrow> destructible (os1 ! j) = destructible (os ! j)"
  unfolding obstacles_decay_def by blast

lemma struck_bullet_and_obstacle:
  assumes i: "i < length bs" and j: "j < length (obstacles g)"
    and live: "alive (bs ! i)"
    and hit: "struck (bs ! i) (obstacles (fst (collide_bullets g (take i bs))) ! j)"
    and destr: "destructible (obstacles g ! j)"
  shows "\<not> alive (snd (collide_bullets g bs) ! i) \<and>
         \<not> alive (obstacles (fst (collide_bullets g bs)) ! j)"
proof -
  let ?gi = "fst (collide_bullets g (take i bs))"
  let ?b = "bs ! i"
  let ?g1 = "fst (collide_bullet ?gi ?b)"
  have split: "bs = take i bs @ ?b # drop (Suc i) bs"
    using i by (simp add: id_take_nth_drop)
  have whole: "collide_bullets g bs =
      (fst (collide_bullets ?g1 (drop (Suc i) bs)),
       snd (collide_bullets g (take i bs)) @
         snd (collide_bullet ?gi ?b) # snd (collide_bullets ?g1 (drop (Suc i) bs)))"
    by (subst split) (simp only: collide_bullets_append collide_bullets_Cons fst_conv snd_conv)
  have len: "length (snd (collide_bullets g (take i bs))) = i"
    using i by (simp add: collide_bullets_length)
  have at_i: "snd (collide_bullets g bs) ! i = snd (collide_bullet ?gi ?b)"
    unfolding whole snd_conv using len by (simp add: nth_append)
  have before: "obstacles_decay (obstacles g) (obstacles ?gi)"
    by (rule obstacles_decay_loop)
  have ji: "j < length (obstacles ?gi)"
    using obstacles_decay_length [OF before] j by simp
  have di: "destructible (obstacles ?gi ! j)"
    using obstacles_decay_destructible [OF before j] destr by simp
  have "list_ex (struck ?b) (obstacles ?gi)"
    unfolding list_ex_iff using hit ji nth_mem by blast
  then have bullet: "\<not> alive (snd (collide_bullet ?gi ?b))"
    by (simp add: collide_bullet_marks)
  have "obstacles ?g1 ! j =
          (if alive ?b \<and> struck ?b (obstacles ?gi ! j) \<and> destructible (obstacles ?gi ! j)
           then (obstacles ?gi ! j)\<lparr>alive := False\<rparr> else obstacles ?gi ! j)"
    unfolding collide_bullet_obstacles using ji by simp
  then have dead1: "\<not> alive (obstacles ?g1 ! j)"
    using live hit di by simp
  have after: "obstacles_decay (obstacles ?g1) (obstacles (fst (collide_bullets ?g1 (drop (Suc i) bs))))"
    by (rule obstacles_decay_loop)
  have "length (obstacles ?g1) = length (obstacles ?gi)"
    by (simp add: collide_bullet_obstacles)
  then have "j < length (obstacles ?g1)" using ji by simp
  then have "\<not> alive (obstacles (fst (collide_bullets ?g1 (drop (Suc i) bs))) ! j)"
    using dead1 by (rule obstacles_decay_dead [OF after])
  then have obstacle: "\<not> alive (obstacles (fst (collide_bullets g bs)) ! j)"
    unfolding whole fst_conv .
  from bullet obstacle at_i show ?thesis by simp
qed

lemma filter_shorter: "k < length cs \<Longrightarrow> \<not> P (cs ! k) \<Longrightarrow> length (filter P cs) < length cs"
  using length_filter_less [of "cs ! k" cs P] by simp

lemma check_collisions_fields:
  "bullets (check_collisions g) = filter alive (snd (collide_bullets g (bullets g))) \<and>
   obstacles (check_collisions g) = filter alive (obstacles (fst (collide_bullets g (bullets g)))) \<and>
   player1 (check_collisions g) = player1 (fst (collide_bullets g (bullets g))) \<and>
   player2 (check_collisions g) = player2 (fst (collide_bullets g (bullets g))) \<and>
   winner (check_collisions g) = winner (fst (collide_bullets g (bullets g))) \<and>
   game_over (check_collisions g) = game_over (fst (collide_bullets g (bullets g))) \<and>
   max_x (check_collisions g) = max_x (fst (collide_bullets g (bullets g))) \<and>
   max_y (check_collisions g) = max_y (fst (collide_bullets g (bullets g)))"
  by (simp add: check_collisions_def split: prod.splits)

text \<open>
  C7. After \<^verbatim>\<open>check_collisions\<close> every bullet in the list of bullets and every obstacle
  in the list of obstacles is alive: the two lists are the lists after the loop,
  which have the lengths they had before it, filtered by \<^verbatim>\<open>alive\<close>. When the bullet at
  index \<open>i\<close>, alive, meets at its turn in the loop the destructible obstacle at index
  \<open>j\<close>, alive and on its cell, both are dead when the loop ends, so both are filtered
  out, and each of the two lists is shorter than before.
\<close>

theorem compaction_removes_dead:
  "(\<forall>b \<in> set (bullets (check_collisions g)). alive b) \<and>
   (\<forall>ob \<in> set (obstacles (check_collisions g)). alive ob) \<and>
   bullets (check_collisions g) = filter alive (snd (collide_bullets g (bullets g))) \<and>
   obstacles (check_collisions g) = filter alive (obstacles (fst (collide_bullets g (bullets g)))) \<and>
   length (snd (collide_bullets g (bullets g))) = length (bullets g) \<and>
   length (obstacles (fst (collide_bullets g (bullets g)))) = length (obstacles g) \<and>
   (i < length (bullets g) \<and> j < length (obstacles g) \<and> alive (bullets g ! i) \<and>
    struck (bullets g ! i) (obstacles (fst (collide_bullets g (take i (bullets g)))) ! j) \<and>
    destructible (obstacles g ! j) \<longrightarrow>
      \<not> alive (snd (collide_bullets g (bullets g)) ! i) \<and>
      \<not> alive (obstacles (fst (collide_bullets g (bullets g))) ! j) \<and>
      length (bullets (check_collisions g)) < length (bullets g) \<and>
      length (obstacles (check_collisions g)) < length (obstacles g))"
proof -
  let ?bs = "snd (collide_bullets g (bullets g))"
  let ?os = "obstacles (fst (collide_bullets g (bullets g)))"
  have bl: "length ?bs = length (bullets g)" by (rule collide_bullets_length)
  have ol: "length ?os = length (obstacles g)"
    by (rule obstacles_decay_length [OF obstacles_decay_loop])
  have fb: "bullets (check_collisions g) = filter alive ?bs"
    and fo: "obstacles (check_collisions g) = filter alive ?os"
    by (simp_all add: check_collisions_fields)
  have a: "\<forall>b \<in> set (bullets (check_collisions g)). alive b" unfolding fb by simp
  have b: "\<forall>ob \<in> set (obstacles (check_collisions g)). alive ob" unfolding fo by simp
  have c: "\<not> alive (?bs ! i) \<and> \<not> alive (?os ! j) \<and>
      length (bullets (check_collisions g)) < length (bullets g) \<and>
      length (obstacles (check_collisions g)) < length (obstacles g)"
    if h: "i < length (bullets g) \<and> j < length (obstacles g) \<and> alive (bullets g ! i) \<and>
           struck (bullets g ! i) (obstacles (fst (collide_bullets g (take i (bullets g)))) ! j) \<and>
           destructible (obstacles g ! j)"
  proof -
    have d: "\<not> alive (?bs ! i) \<and> \<not> alive (?os ! j)"
      using h by (intro struck_bullet_and_obstacle) simp_all
    have "length (filter alive ?bs) < length ?bs"
      using h d bl by (intro filter_shorter [of i]) simp_all
    moreover have "length (filter alive ?os) < length ?os"
      using h d ol by (intro filter_shorter [of j]) simp_all
    ultimately show ?thesis using d bl ol fb fo by simp
  qed
  from a b fb fo bl ol c show ?thesis by blast
qed

theorem compaction_removes_dead_witness:
  "struck (Bullet_init 12 4 RIGHT 4) (Obstacle_init 12 4) \<and>
   bullets (check_collisions
     \<lparr>max_y = 20, max_x = 40,
        player1 = Tank_init 5 10 ''^'' 1, player2 = Tank_init 35 10 ''^'' 2,
        bullets = [Bullet_init 12 4 RIGHT 4, Bullet_init 20 5 RIGHT 4],
        obstacles = [Obstacle_init 12 4, Obstacle_init 15 6],
        game_over = False, winner = None\<rparr>) = [Bullet_init 20 5 RIGHT 4] \<and>
   obstacles (check_collisions
     \<lparr>max_y = 20, max_x = 40,
        player1 = Tank_init 5 10 ''^'' 1, player2 = Tank_init 35 10 ''^'' 2,
        bullets = [Bullet_init 12 4 RIGHT 4, Bullet_init 20 5 RIGHT 4],
        obstacles = [Obstacle_init 12 4, Obstacle_init 15 6],
        game_over = False, winner = None\<rparr>) = [Obstacle_init 15 6]"
  using compaction_removes_dead [of
     "\<lparr>max_y = 20, max_x = 40,
        player1 = Tank_init 5 10 ''^'' 1, player2 = Tank_init 35 10 ''^'' 2,
        bullets = [Bullet_init 12 4 RIGHT 4, Bullet_init 20 5 RIGHT 4],
        obstacles = [Obstacle_init 12 4, Obstacle_init 15 6],
        game_over = False, winner = None\<rparr>" 0 0]
  by (simp add: collision_eval struck_def)

subsection \<open>Health over a session\<close>

lemma tank_ok_init: "tank_ok (Tank_init px py glyph cp)"
  by (simp add: tank_ok_def Tank_init_def)

lemma move_health:
  "health (move t dx dy mx my) = health t \<and> alive (move t dx dy mx my) = alive t"
  by (simp add: move_def Let_def)

lemma shoot_health:
  "health (snd (shoot t ct cr)) = health t \<and> alive (snd (shoot t ct cr)) = alive t"
  by (simp add: shoot_cases)

lemma tank_ok_cong: "health t1 = health t \<Longrightarrow> alive t1 = alive t \<Longrightarrow> tank_ok t1 = tank_ok t"
  by (simp add: tank_ok_def)

lemma hit_health: "health (hit t) = health t - 1 \<and> (alive (hit t) \<longleftrightarrow> alive t \<and> health t > 1)"
  by (simp add: hit_def Let_def)

lemma tank_ok_hit: "tank_ok t \<Longrightarrow> alive t \<Longrightarrow> tank_ok (hit t)"
  by (auto simp: tank_ok_def hit_health)

lemma player_shoot_players:
  "player1 (player1_shoot g ct cr) = snd (shoot (player1 g) ct cr) \<and>
   player2 (player2_shoot g ct cr) = snd (shoot (player2 g) ct cr)"
  by (simp add: player1_shoot_def player2_shoot_def shoot_cases)

lemma handle_input_health:
  "health (player1 (handle_input g key ct cr)) = health (player1 g) \<and>
   alive (player1 (handle_input g key ct cr)) = alive (player1 g) \<and>
   health (player2 (handle_input g key ct cr)) = health (player2 g) \<and>
   alive (player2 (handle_input g key ct cr)) = alive (player2 g)"
  using handle_input_dispatch [of g key ct cr]
  by (elim insertE emptyE)
     (simp_all add: move_health shoot_health player_shoot_fields player_shoot_players)

lemma collide_bullet_tank_ok:
  "tank_ok (player1 g) \<Longrightarrow> tank_ok (player1 (fst (collide_bullet g b)))"
  "tank_ok (player2 g) \<Longrightarrow> tank_ok (player2 (fst (collide_bullet g b)))"
  by (simp_all add: collide_bullet_player1 collide_bullet_player2 struck_def tank_ok_hit)

lemma collide_bullet_health:
  "health (player1 (fst (collide_bullet g b))) \<le> health (player1 g) \<and>
   health (player2 (fst (collide_bullet g b))) \<le> health (player2 g)"
  by (simp add: collide_bullet_player1 collide_bullet_player2 hit_health)

lemma collide_bullets_tank_ok:
  "tank_ok (player1 g) \<Longrightarrow> tank_ok (player1 (fst (collide_bullets g bs)))"
  "tank_ok (player2 g) \<Longrightarrow> tank_ok (player2 (fst (collide_bullets g bs)))"
  by (induction bs arbitrary: g)
     (simp_all only: collide_bullets.simps(1) collide_bullets_Cons fst_conv collide_bullet_tank_ok)

lemma collide_bullets_health:
  "health (player1 (fst (collide_bullets g bs))) \<le> health (player1 g) \<and>
   health (player2 (fst (collide_bullets g bs))) \<le> health (player2 g)"
proof (induction bs arbitrary: g)
  case Nil
  show ?case by simp
next
  case (Cons b bs)
  show ?case
    unfolding collide_bullets_Cons fst_conv
    using Cons [of "fst (collide_bullet g b)"] collide_bullet_health [of g b] by linarith
qed

lemma tick_tank_ok:
  "tank_ok (player1 g) \<Longrightarrow> tank_ok (player1 (tick g key ct cr clock))"
  "tank_ok (player2 g) \<Longrightarrow> tank_ok (player2 (tick g key ct cr clock))"
proof -
  let ?h = "handle_input g key ct cr"
  let ?u = "?h\<lparr>bullets := update_bullets clock 0 (max_x ?h) (max_y ?h) (bullets ?h)\<rparr>"
  have t: "tick g key ct cr clock = check_collisions ?u"
    by (simp add: tick_def Game_update_def)
  have p1: "tank_ok (player1 ?u) = tank_ok (player1 g)"
    by (rule tank_ok_cong) (simp_all add: handle_input_health)
  have p2: "tank_ok (player2 ?u) = tank_ok (player2 g)"
    by (rule tank_ok_cong) (simp_all add: handle_input_health)
  show "tank_ok (player1 g) \<Longrightarrow> tank_ok (player1 (tick g key ct cr clock))"
    unfolding t using p1 collide_bullets_tank_ok(1) [of ?u "bullets ?u"]
    by (simp add: check_collisions_fields)
  show "tank_ok (player2 g) \<Longrightarrow> tank_ok (player2 (tick g key ct cr clock))"
    unfolding t using p2 collide_bullets_tank_ok(2) [of ?u "bullets ?u"]
    by (simp add: check_collisions_fields)
qed

lemma tick_health:
  "health (player1 (tick g key ct cr clock)) \<le> health (player1 g) \<and>
   health (player2 (tick g key ct cr clock)) \<le> health (player2 g)"
proof -
  let ?h = "handle_input g key ct cr"
  let ?u = "?h\<lparr>bullets := update_bullets clock 0 (max_x ?h) (max_y ?h) (bullets ?h)\<rparr>"
  have t: "tick g key ct cr clock = check_collisions ?u"
    by (simp add: tick_def Game_update_def)
  show ?thesis
    unfolding t
    using handle_input_health [of g key ct cr] collide_bullets_health [of ?u "bullets ?u"]
    by (simp add: check_collisions_fields)
qed

lemma reachable_tank_ok: "reachable g \<Longrightarrow> tank_ok (player1 g) \<and> tank_ok (player2 g)"
proof (induction rule: reachable.induct)
  case (reachable_init my mx draws g)
  then show ?case
    by (auto simp: init_game_def tank_ok_init split: if_splits)
next
  case (reachable_tick g key current_time created clock)
  then show ?case by (simp add: tick_tank_ok)
qed

lemma example_draws: "possible_draws 20 40 (replicate 20 (12, 4))"
  by (simp add: possible_draws_def list_all_iff)

lemma example_init:
  "init_game 20 40 (replicate 20 (12, 4)) = Inr
     \<lparr>max_y = 20, max_x = 40, player1 = Tank_init 5 10 ''^'' 1,
        player2 = Tank_init 35 10 ''^'' 2, bullets = [],
        obstacles = map (\<lambda>(px, py). Obstacle_init px py) (replicate 20 (12, 4)),
        game_over = False, winner = None\<rparr>"
  by (simp add: init_game_def)

text \<open>
  C2. In every state of a session both tanks have a health from 0 to 3 and are alive
  exactly when their health is positive, and a round of the main loop never raises the
  health of a tank. \<^verbatim>\<open>hit\<close> takes one health point, and the tank is alive afterwards
  exactly when it was alive with more than one point. In any game the collision loop
  leaves a tank that is not alive as it is.
\<close>

theorem health_invariant:
  assumes "reachable g"
  shows "tank_ok (player1 g) \<and> tank_ok (player2 g) \<and>
         health (player1 (tick g key ct cr clock)) \<le> health (player1 g) \<and>
         health (player2 (tick g key ct cr clock)) \<le> health (player2 g) \<and>
         health (hit t) = health t - 1 \<and>
         (alive (hit t) \<longleftrightarrow> alive t \<and> health t > 1) \<and>
         (\<not> alive (player1 s) \<longrightarrow> player1 (fst (collide_bullet s b)) = player1 s) \<and>
         (\<not> alive (player2 s) \<longrightarrow> player2 (fst (collide_bullet s b)) = player2 s)"
proof -
  have dead: "(\<not> alive (player1 s) \<longrightarrow> player1 (fst (collide_bullet s b)) = player1 s) \<and>
         (\<not> alive (player2 s) \<longrightarrow> player2 (fst (collide_bullet s b)) = player2 s)"
    by (simp add: collide_bullet_player1 collide_bullet_player2 struck_def)
  from reachable_tank_ok [OF assms] tick_health [of g key ct cr clock] hit_health [of t] dead
  show ?thesis by simp
qed

theorem health_invariant_witness:
  "reachable
     \<lparr>max_y = 20, max_x = 40, player1 = Tank_init 5 10 ''^'' 1,
        player2 = Tank_init 35 10 ''^'' 2, bullets = [],
        obstacles = map (\<lambda>(px, py). Obstacle_init px py) (replicate 20 (12, 4)),
        game_over = False, winner = None\<rparr> \<and>
   tank_ok (Tank_init 5 10 ''^'' 1) \<and> tank_ok (Tank_init 35 10 ''^'' 2) \<and>
   health (hit (Tank_init 5 10 ''^'' 1)) = 2 \<and> alive (hit (Tank_init 5 10 ''^'' 1))"
proof -
  have r: "reachable
     \<lparr>max_y = 20, max_x = 40, player1 = Tank_init 5 10 ''^'' 1,
        player2 = Tank_init 35 10 ''^'' 2, bullets = [],
        obstacles = map (\<lambda>(px, py). Obstacle_init px py) (replicate 20 (12, 4)),
        game_over = False, winner = None\<rparr>"
    by (rule reachable_init [OF example_draws example_init])
  from r health_invariant [OF r, of _ _ _ _ "Tank_init 5 10 ''^'' 1"]
  show ?thesis by (simp add: Tank_init_def)
qed

subsection \<open>A tank that is hit, and the winner\<close>

lemma collide_bullet_cells:
  "x (player1 (fst (collide_bullet g b))) = x (player1 g) \<and>
   y (player1 (fst (collide_bullet g b))) = y (player1 g) \<and>
   x (player2 (fst (collide_bullet g b))) = x (player2 g) \<and>
   y (player2 (fst (collide_bullet g b))) = y (player2 g) \<and>
   (alive (player1 (fst (collide_bullet g b))) \<longrightarrow> alive (player1 g)) \<and>
   (alive (player2 (fst (collide_bullet g b))) \<longrightarrow> alive (player2 g))"
  by (simp add: collide_bullet_player1 collide_bullet_player2 hit_cell)

lemma collide_bullets_cells:
  "x (player1 (fst (collide_bullets g bs))) = x (player1 g) \<and>
   y (player1 (fst (collide_bullets g bs))) = y (player1 g) \<and>
   x (player2 (fst (collide_bullets g bs))) = x (player2 g) \<and>
   y (player2 (fst (collide_bullets g bs))) = y (player2 g) \<and>
   (alive (player1 (fst (collide_bullets g bs))) \<longrightarrow> alive (player1 g)) \<and>
   (alive (player2 (fst (collide_bullets g bs))) \<longrightarrow> alive (player2 g))"
proof (induction bs arbitrary: g)
  case Nil
  show ?case by simp
next
  case (Cons b bs)
  show ?case
    unfolding collide_bullets_Cons fst_conv
    using Cons [of "fst (collide_bullet g b)"] collide_bullet_cells [of g b] by simp
qed

lemma collide_bullets_dead_tank:
  "(\<not> alive (player1 g) \<longrightarrow> player1 (fst (collide_bullets g bs)) = player1 g) \<and>
   (\<not> alive (player2 g) \<longrightarrow> player2 (fst (collide_bullets g bs)) = player2 g)"
proof (induction bs arbitrary: g)
  case Nil
  show ?case by simp
next
  case (Cons b bs)
  have step: "(\<not> alive (player1 g) \<longrightarrow> player1 (fst (collide_bullet g b)) = player1 g) \<and>
              (\<not> alive (player2 g) \<longrightarrow> player2 (fst (collide_bullet g b)) = player2 g)"
    by (simp add: collide_bullet_player1 collide_bullet_player2 struck_def)
  show ?case
    unfolding collide_bullets_Cons fst_conv
    using Cons [of "fst (collide_bullet g b)"] step by simp
qed

lemma collide_bullets_game_over:
  "game_over g \<Longrightarrow> game_over (fst (collide_bullets g bs))"
proof (induction bs arbitrary: g)
  case Nil
  then show ?case by simp
next
  case (Cons b bs)
  have "game_over (fst (collide_bullet g b))"
    using Cons.prems by (simp add: collide_bullet_winner)
  then show ?case
    unfolding collide_bullets_Cons fst_conv by (rule Cons.IH)
qed

lemma collide_bullets_kills_player1:
  assumes "alive (player1 g)" and "health (player1 g) = 1"
    and "\<exists>b \<in> set bs. alive b \<and> struck b (player1 g)"
  shows "health (player1 (fst (collide_bullets g bs))) = 0 \<and>
         \<not> alive (player1 (fst (collide_bullets g bs))) \<and>
         game_over (fst (collide_bullets g bs))"
  using assms
proof (induction bs arbitrary: g)
  case Nil
  then show ?case by simp
next
  case (Cons b bs)
  let ?g1 = "fst (collide_bullet g b)"
  show ?case
  proof (cases "alive b \<and> struck b (player1 g)")
    case True
    have p: "player1 ?g1 = hit (player1 g)"
      using True by (simp add: collide_bullet_player1)
    have d: "health (player1 ?g1) = 0 \<and> \<not> alive (player1 ?g1)"
      unfolding p using Cons.prems(2) by (simp add: hit_health)
    have "game_over ?g1"
      using True d p by (simp add: collide_bullet_winner)
    then have go: "game_over (fst (collide_bullets ?g1 bs))"
      by (rule collide_bullets_game_over)
    have "player1 (fst (collide_bullets ?g1 bs)) = player1 ?g1"
      using d collide_bullets_dead_tank [of ?g1 bs] by simp
    with d go show ?thesis
      unfolding collide_bullets_Cons fst_conv by simp
  next
    case False
    have same: "player1 ?g1 = player1 g"
      using False by (auto simp: collide_bullet_player1)
    have "\<exists>c \<in> set bs. alive c \<and> struck c (player1 ?g1)"
      using Cons.prems(3) False same by auto
    then show ?thesis
      unfolding collide_bullets_Cons fst_conv
      using Cons.IH [of ?g1] Cons.prems(1,2) same by simp
  qed
qed

lemma collide_bullets_kills_player2:
  assumes "alive (player2 g)" and "health (player2 g) = 1"
    and "\<exists>b \<in> set bs. alive b \<and> struck b (player2 g)"
  shows "health (player2 (fst (collide_bullets g bs))) = 0 \<and>
         \<not> alive (player2 (fst (collide_bullets g bs))) \<and>
         game_over (fst (collide_bullets g bs))"
  using assms
proof (induction bs arbitrary: g)
  case Nil
  then show ?case by simp
next
  case (Cons b bs)
  let ?g1 = "fst (collide_bullet g b)"
  show ?case
  proof (cases "alive b \<and> struck b (player2 g)")
    case True
    have p: "player2 ?g1 = hit (player2 g)"
      using True by (simp add: collide_bullet_player2)
    have d: "health (player2 ?g1) = 0 \<and> \<not> alive (player2 ?g1)"
      unfolding p using Cons.prems(2) by (simp add: hit_health)
    have "game_over ?g1"
      using True d p by (simp add: collide_bullet_winner)
    then have go: "game_over (fst (collide_bullets ?g1 bs))"
      by (rule collide_bullets_game_over)
    have "player2 (fst (collide_bullets ?g1 bs)) = player2 ?g1"
      using d collide_bullets_dead_tank [of ?g1 bs] by simp
    with d go show ?thesis
      unfolding collide_bullets_Cons fst_conv by simp
  next
    case False
    have same: "player2 ?g1 = player2 g"
      using False by (auto simp: collide_bullet_player2)
    have "\<exists>c \<in> set bs. alive c \<and> struck c (player2 ?g1)"
      using Cons.prems(3) False same by auto
    then show ?thesis
      unfolding collide_bullets_Cons fst_conv
      using Cons.IH [of ?g1] Cons.prems(1,2) same by simp
  qed
qed

lemma collide_bullets_no_death:
  assumes "alive (player1 g) \<longrightarrow> alive (player1 (fst (collide_bullets g bs)))"
    and "alive (player2 g) \<longrightarrow> alive (player2 (fst (collide_bullets g bs)))"
  shows "winner (fst (collide_bullets g bs)) = winner g"
  using assms
proof (induction bs arbitrary: g)
  case Nil
  then show ?case by simp
next
  case (Cons b bs)
  let ?g1 = "fst (collide_bullet g b)"
  let ?g2 = "fst (collide_bullets ?g1 bs)"
  have fin1: "alive (player1 g) \<longrightarrow> alive (player1 ?g2)"
    and fin2: "alive (player2 g) \<longrightarrow> alive (player2 ?g2)"
    using Cons.prems unfolding collide_bullets_Cons fst_conv by simp_all
  have mid: "(alive (player1 ?g2) \<longrightarrow> alive (player1 ?g1)) \<and>
             (alive (player2 ?g2) \<longrightarrow> alive (player2 ?g1))"
    using collide_bullets_cells [of ?g1 bs] by simp
  have prev: "(alive (player1 ?g1) \<longrightarrow> alive (player1 g)) \<and>
              (alive (player2 ?g1) \<longrightarrow> alive (player2 g))"
    using collide_bullet_cells [of g b] by simp
  have n1: "\<not> (alive b \<and> struck b (player1 g) \<and> \<not> alive (hit (player1 g)))"
    using fin1 mid by (auto simp: collide_bullet_player1 struck_def)
  have n2: "\<not> (alive b \<and> struck b (player2 g) \<and> \<not> alive (hit (player2 g)))"
    using fin2 mid by (auto simp: collide_bullet_player2 struck_def)
  have w1: "winner ?g1 = winner g"
    using n1 n2 by (auto simp: collide_bullet_winner)
  have "winner ?g2 = winner ?g1"
    using fin1 fin2 prev by (intro Cons.IH) blast+
  with w1 show ?case
    unfolding collide_bullets_Cons fst_conv by simp
qed

lemma collide_bullets_winner_player2:
  assumes "alive (player1 g)" and "\<not> alive (player1 (fst (collide_bullets g bs)))"
    and "alive (player2 g) \<longrightarrow> alive (player2 (fst (collide_bullets g bs)))"
  shows "winner (fst (collide_bullets g bs)) = Some ''Player 2''"
  using assms
proof (induction bs arbitrary: g)
  case Nil
  then show ?case by simp
next
  case (Cons b bs)
  let ?g1 = "fst (collide_bullet g b)"
  let ?g2 = "fst (collide_bullets ?g1 bs)"
  have dead_fin: "\<not> alive (player1 ?g2)"
    and fin2: "alive (player2 g) \<longrightarrow> alive (player2 ?g2)"
    using Cons.prems unfolding collide_bullets_Cons fst_conv by simp_all
  have mid: "alive (player2 ?g2) \<longrightarrow> alive (player2 ?g1)"
    using collide_bullets_cells [of ?g1 bs] by simp
  have prev: "alive (player2 ?g1) \<longrightarrow> alive (player2 g)"
    using collide_bullet_cells [of g b] by simp
  have n2: "\<not> (alive b \<and> struck b (player2 g) \<and> \<not> alive (hit (player2 g)))"
    using fin2 mid by (auto simp: collide_bullet_player2 struck_def)
  have rest2: "alive (player2 ?g1) \<longrightarrow> alive (player2 ?g2)"
    using prev fin2 by blast
  show ?case
  proof (cases "alive (player1 ?g1)")
    case True
    have "winner ?g2 = Some ''Player 2''"
      using True dead_fin rest2 by (rule Cons.IH)
    then show ?thesis unfolding collide_bullets_Cons fst_conv .
  next
    case False
    then have "alive b \<and> struck b (player1 g) \<and> \<not> alive (hit (player1 g))"
      using Cons.prems(1) by (auto simp: collide_bullet_player1 split: if_splits)
    then have w1: "winner ?g1 = Some ''Player 2''"
      using n2 by (auto simp: collide_bullet_winner)
    have "winner ?g2 = winner ?g1"
      using False rest2 by (intro collide_bullets_no_death) simp_all
    with w1 show ?thesis unfolding collide_bullets_Cons fst_conv by simp
  qed
qed

lemma collide_bullets_winner_player1:
  assumes "alive (player2 g)" and "\<not> alive (player2 (fst (collide_bullets g bs)))"
    and "alive (player1 g) \<longrightarrow> alive (player1 (fst (collide_bullets g bs)))"
  shows "winner (fst (collide_bullets g bs)) = Some ''Player 1''"
  using assms
proof (induction bs arbitrary: g)
  case Nil
  then show ?case by simp
next
  case (Cons b bs)
  let ?g1 = "fst (collide_bullet g b)"
  let ?g2 = "fst (collide_bullets ?g1 bs)"
  have dead_fin: "\<not> alive (player2 ?g2)"
    and fin1: "alive (player1 g) \<longrightarrow> alive (player1 ?g2)"
    using Cons.prems unfolding collide_bullets_Cons fst_conv by simp_all
  have mid: "alive (player1 ?g2) \<longrightarrow> alive (player1 ?g1)"
    using collide_bullets_cells [of ?g1 bs] by simp
  have prev: "alive (player1 ?g1) \<longrightarrow> alive (player1 g)"
    using collide_bullet_cells [of g b] by simp
  have n1: "\<not> (alive b \<and> struck b (player1 g) \<and> \<not> alive (hit (player1 g)))"
    using fin1 mid by (auto simp: collide_bullet_player1 struck_def)
  have rest1: "alive (player1 ?g1) \<longrightarrow> alive (player1 ?g2)"
    using prev fin1 by blast
  show ?case
  proof (cases "alive (player2 ?g1)")
    case True
    have "winner ?g2 = Some ''Player 1''"
      using True dead_fin rest1 by (rule Cons.IH)
    then show ?thesis unfolding collide_bullets_Cons fst_conv .
  next
    case False
    then have "alive b \<and> struck b (player2 g) \<and> \<not> alive (hit (player2 g))"
      using Cons.prems(1) by (auto simp: collide_bullet_player2 split: if_splits)
    then have w1: "winner ?g1 = Some ''Player 1''"
      by (auto simp: collide_bullet_winner)
    have "winner ?g2 = winner ?g1"
      using False rest1 by (intro collide_bullets_no_death) simp_all
    with w1 show ?thesis unfolding collide_bullets_Cons fst_conv by simp
  qed
qed

text \<open>
  C5, as stated, fails: when both tanks have one health point and stand on the cell of
  one live bullet, \<^verbatim>\<open>check_collisions\<close> kills both; the death of \<^verbatim>\<open>player1\<close> sets the
  winner to \<^verbatim>\<open>"Player 2"\<close> and the death of \<^verbatim>\<open>player2\<close>, tested next, sets it to
  \<^verbatim>\<open>"Player 1"\<close>. So \<^verbatim>\<open>player1\<close>, with health 1 and hit by a live bullet, ends with
  health 0 and the game over, and the winner is \<^verbatim>\<open>"Player 1"\<close>, not the other tank.
\<close>

theorem mutual_kill_counterexample:
  "health (player1 (check_collisions
     \<lparr>max_y = 20, max_x = 40,
        player1 = (Tank_init 12 10 ''^'' 1)\<lparr>health := 1\<rparr>,
        player2 = (Tank_init 12 10 ''^'' 2)\<lparr>health := 1\<rparr>,
        bullets = [Bullet_init 12 10 LEFT 4], obstacles = [],
        game_over = False, winner = None\<rparr>)) = 0 \<and>
   \<not> alive (player1 (check_collisions
     \<lparr>max_y = 20, max_x = 40,
        player1 = (Tank_init 12 10 ''^'' 1)\<lparr>health := 1\<rparr>,
        player2 = (Tank_init 12 10 ''^'' 2)\<lparr>health := 1\<rparr>,
        bullets = [Bullet_init 12 10 LEFT 4], obstacles = [],
        game_over = False, winner = None\<rparr>)) \<and>
   game_over (check_collisions
     \<lparr>max_y = 20, max_x = 40,
        player1 = (Tank_init 12 10 ''^'' 1)\<lparr>health := 1\<rparr>,
        player2 = (Tank_init 12 10 ''^'' 2)\<lparr>health := 1\<rparr>,
        bullets = [Bullet_init 12 10 LEFT 4], obstacles = [],
        game_over = False, winner = None\<rparr>) \<and>
   winner (check_collisions
     \<lparr>max_y = 20, max_x = 40,
        player1 = (Tank_init 12 10 ''^'' 1)\<lparr>health := 1\<rparr>,
        player2 = (Tank_init 12 10 ''^'' 2)\<lparr>health := 1\<rparr>,
        bullets = [Bullet_init 12 10 LEFT 4], obstacles = [],
        game_over = False, winner = None\<rparr>) = Some ''Player 1''"
  by (simp add: collision_eval)

text \<open>
  C5, amended. When the collision loop finds a live bullet on the cell of a live tank,
  the tank is hit and the bullet is marked dead; if the hit kills the tank, the game is
  over and the winner is set to the other tank, after which a death of that other tank
  under the same bullet sets it again, to \<^verbatim>\<open>"Player 1"\<close>. For the whole of
  \<^verbatim>\<open>check_collisions\<close>: a live tank with health 1 that has a live bullet on its cell
  ends with health 0, not alive, and the game over; the winner is the other tank
  provided the other tank does not die in the same call.
\<close>

theorem tank_hit_outcome:
  "(alive b \<and> struck b (player1 g) \<longrightarrow>
      player1 (fst (collide_bullet g b)) = hit (player1 g) \<and>
      \<not> alive (snd (collide_bullet g b)) \<and>
      (\<not> alive (hit (player1 g)) \<longrightarrow>
         game_over (fst (collide_bullet g b)) \<and>
         winner (fst (collide_bullet g b)) =
           (if struck b (player2 g) \<and> \<not> alive (hit (player2 g))
            then Some ''Player 1'' else Some ''Player 2''))) \<and>
   (alive b \<and> struck b (player2 g) \<longrightarrow>
      player2 (fst (collide_bullet g b)) = hit (player2 g) \<and>
      \<not> alive (snd (collide_bullet g b)) \<and>
      (\<not> alive (hit (player2 g)) \<longrightarrow>
         game_over (fst (collide_bullet g b)) \<and>
         winner (fst (collide_bullet g b)) = Some ''Player 1'')) \<and>
   (alive (player1 g) \<and> health (player1 g) = 1 \<and>
    (\<exists>c \<in> set (bullets g). alive c \<and> struck c (player1 g)) \<longrightarrow>
      health (player1 (check_collisions g)) = 0 \<and>
      \<not> alive (player1 (check_collisions g)) \<and>
      game_over (check_collisions g) \<and>
      ((alive (player2 g) \<longrightarrow> alive (player2 (check_collisions g))) \<longrightarrow>
         winner (check_collisions g) = Some ''Player 2'')) \<and>
   (alive (player2 g) \<and> health (player2 g) = 1 \<and>
    (\<exists>c \<in> set (bullets g). alive c \<and> struck c (player2 g)) \<longrightarrow>
      health (player2 (check_collisions g)) = 0 \<and>
      \<not> alive (player2 (check_collisions g)) \<and>
      game_over (check_collisions g) \<and>
      ((alive (player1 g) \<longrightarrow> alive (player1 (check_collisions g))) \<longrightarrow>
         winner (check_collisions g) = Some ''Player 1''))"
proof -
  have one: "alive b \<and> struck b (player1 g) \<longrightarrow>
      player1 (fst (collide_bullet g b)) = hit (player1 g) \<and>
      \<not> alive (snd (collide_bullet g b)) \<and>
      (\<not> alive (hit (player1 g)) \<longrightarrow>
         game_over (fst (collide_bullet g b)) \<and>
         winner (fst (collide_bullet g b)) =
           (if struck b (player2 g) \<and> \<not> alive (hit (player2 g))
            then Some ''Player 1'' else Some ''Player 2''))"
    by (simp add: collide_bullet_player1 collide_bullet_marks collide_bullet_winner)
  have two: "alive b \<and> struck b (player2 g) \<longrightarrow>
      player2 (fst (collide_bullet g b)) = hit (player2 g) \<and>
      \<not> alive (snd (collide_bullet g b)) \<and>
      (\<not> alive (hit (player2 g)) \<longrightarrow>
         game_over (fst (collide_bullet g b)) \<and>
         winner (fst (collide_bullet g b)) = Some ''Player 1'')"
    by (simp add: collide_bullet_player2 collide_bullet_marks collide_bullet_winner)
  have three: "health (player1 (check_collisions g)) = 0 \<and>
      \<not> alive (player1 (check_collisions g)) \<and>
      game_over (check_collisions g) \<and>
      ((alive (player2 g) \<longrightarrow> alive (player2 (check_collisions g))) \<longrightarrow>
         winner (check_collisions g) = Some ''Player 2'')"
    if h: "alive (player1 g) \<and> health (player1 g) = 1 \<and>
           (\<exists>c \<in> set (bullets g). alive c \<and> struck c (player1 g))"
  proof -
    have k: "health (player1 (fst (collide_bullets g (bullets g)))) = 0 \<and>
             \<not> alive (player1 (fst (collide_bullets g (bullets g)))) \<and>
             game_over (fst (collide_bullets g (bullets g)))"
      using h by (intro collide_bullets_kills_player1) simp_all
    have w: "winner (fst (collide_bullets g (bullets g))) = Some ''Player 2''"
      if "alive (player2 g) \<longrightarrow> alive (player2 (fst (collide_bullets g (bullets g))))"
      using h k that by (intro collide_bullets_winner_player2) simp_all
    from k w show ?thesis by (simp add: check_collisions_fields)
  qed
  have four: "health (player2 (check_collisions g)) = 0 \<and>
      \<not> alive (player2 (check_collisions g)) \<and>
      game_over (check_collisions g) \<and>
      ((alive (player1 g) \<longrightarrow> alive (player1 (check_collisions g))) \<longrightarrow>
         winner (check_collisions g) = Some ''Player 1'')"
    if h: "alive (player2 g) \<and> health (player2 g) = 1 \<and>
           (\<exists>c \<in> set (bullets g). alive c \<and> struck c (player2 g))"
  proof -
    have k: "health (player2 (fst (collide_bullets g (bullets g)))) = 0 \<and>
             \<not> alive (player2 (fst (collide_bullets g (bullets g)))) \<and>
             game_over (fst (collide_bullets g (bullets g)))"
      using h by (intro collide_bullets_kills_player2) simp_all
    have w: "winner (fst (collide_bullets g (bullets g))) = Some ''Player 1''"
      if "alive (player1 g) \<longrightarrow> alive (player1 (fst (collide_bullets g (bullets g))))"
      using h k that by (intro collide_bullets_winner_player1) simp_all
    from k w show ?thesis by (simp add: check_collisions_fields)
  qed
  from one two three four show ?thesis by blast
qed

theorem tank_hit_outcome_witness:
  "alive ((Tank_init 5 10 ''^'' 1)\<lparr>health := 1\<rparr>) \<and>
   struck (Bullet_init 5 10 LEFT 4) ((Tank_init 5 10 ''^'' 1)\<lparr>health := 1\<rparr>) \<and>
   health (player1 (check_collisions
     \<lparr>max_y = 20, max_x = 40,
        player1 = (Tank_init 5 10 ''^'' 1)\<lparr>health := 1\<rparr>,
        player2 = (Tank_init 35 10 ''^'' 2)\<lparr>health := 1\<rparr>,
        bullets = [Bullet_init 5 10 LEFT 4], obstacles = [],
        game_over = False, winner = None\<rparr>)) = 0 \<and>
   alive (player2 (check_collisions
     \<lparr>max_y = 20, max_x = 40,
        player1 = (Tank_init 5 10 ''^'' 1)\<lparr>health := 1\<rparr>,
        player2 = (Tank_init 35 10 ''^'' 2)\<lparr>health := 1\<rparr>,
        bullets = [Bullet_init 5 10 LEFT 4], obstacles = [],
        game_over = False, winner = None\<rparr>)) \<and>
   winner (check_collisions
     \<lparr>max_y = 20, max_x = 40,
        player1 = (Tank_init 5 10 ''^'' 1)\<lparr>health := 1\<rparr>,
        player2 = (Tank_init 35 10 ''^'' 2)\<lparr>health := 1\<rparr>,
        bullets = [Bullet_init 5 10 LEFT 4], obstacles = [],
        game_over = False, winner = None\<rparr>) = Some ''Player 2''"
  using tank_hit_outcome [of "Bullet_init 5 10 LEFT 4"
     "\<lparr>max_y = 20, max_x = 40,
        player1 = (Tank_init 5 10 ''^'' 1)\<lparr>health := 1\<rparr>,
        player2 = (Tank_init 35 10 ''^'' 2)\<lparr>health := 1\<rparr>,
        bullets = [Bullet_init 5 10 LEFT 4], obstacles = [],
        game_over = False, winner = None\<rparr>"]
  by (simp add: collision_eval struck_def)

subsection \<open>Bullets created on the border\<close>

lemma border_not_struck: "inside mx my t \<Longrightarrow> on_border mx my b \<Longrightarrow> \<not> struck b t"
  by (auto simp: inside_def on_border_def struck_def)

lemma collide_obstacles_miss:
  "\<forall>ob \<in> set os. \<not> struck b ob \<Longrightarrow> collide_obstacles b os = (b, os)"
  by (induction os) (auto simp: struck_def)

lemma collide_bullet_miss:
  assumes "\<not> struck b (player1 g)" and "\<not> struck b (player2 g)"
    and "\<not> list_ex (struck b) (obstacles g)"
  shows "collide_bullet g b = (g, b)"
proof (cases "alive b")
  case False
  then show ?thesis by (rule collide_bullet_dead)
next
  case True
  have 1: "collide_player1 g b = (g, b)" using assms(1) by (simp add: collide_player1_struck)
  have 2: "collide_player2 g b = (g, b)" using assms(2) by (simp add: collide_player2_struck)
  have "\<forall>ob \<in> set (obstacles g). \<not> struck b ob"
    using assms(3) by (simp add: list_ex_iff)
  then have 3: "collide_obstacles b (obstacles g) = (b, obstacles g)"
    by (rule collide_obstacles_miss)
  show ?thesis
    unfolding collide_bullet_alive [OF True] 1 2 3 fst_conv snd_conv by simp
qed

lemma collide_bullet_border:
  assumes "field_ok g" and "on_border (max_x g) (max_y g) b"
  shows "collide_bullet g b = (g, b)"
proof -
  have "\<not> struck b ob" if "ob \<in> set (obstacles g)" for ob
  proof -
    have "inside (max_x g) (max_y g) ob"
      using assms(1) that by (simp add: field_ok_def list_all_iff)
    then show ?thesis using assms(2) by (rule border_not_struck)
  qed
  then have o: "\<not> list_ex (struck b) (obstacles g)" by (simp add: list_ex_iff)
  have "inside (max_x g) (max_y g) (player1 g)" using assms(1) by (simp add: field_ok_def)
  then have p1: "\<not> struck b (player1 g)" using assms(2) by (rule border_not_struck)
  have "inside (max_x g) (max_y g) (player2 g)" using assms(1) by (simp add: field_ok_def)
  then have p2: "\<not> struck b (player2 g)" using assms(2) by (rule border_not_struck)
  show ?thesis using p1 p2 o by (rule collide_bullet_miss)
qed

lemma field_ok_collide_bullet: "field_ok g \<Longrightarrow> field_ok (fst (collide_bullet g b))"
  by (auto simp: field_ok_def collide_bullet_frame collide_bullet_obstacles inside_def
        collide_bullet_cells list_all_iff)

lemma field_ok_collide_bullets: "field_ok g \<Longrightarrow> field_ok (fst (collide_bullets g bs))"
  by (induction bs arbitrary: g)
     (simp_all only: collide_bullets.simps(1) collide_bullets_Cons fst_conv field_ok_collide_bullet)

lemma field_ok_check_collisions: "field_ok g \<Longrightarrow> field_ok (check_collisions g)"
  using field_ok_collide_bullets [of g "bullets g"]
  by (auto simp: field_ok_def check_collisions_fields list_all_iff)

lemma field_ok_bullets: "field_ok (g\<lparr>bullets := bs\<rparr>) = field_ok g"
  by (simp add: field_ok_def)

lemma move_inside: "inside mx my t \<Longrightarrow> inside mx my (move t dx dy mx my)"
  by (simp add: inside_def move_def Let_def)

lemma handle_input_frame:
  "max_x (handle_input g key ct cr) = max_x g \<and> max_y (handle_input g key ct cr) = max_y g \<and>
   obstacles (handle_input g key ct cr) = obstacles g"
  using handle_input_dispatch [of g key ct cr]
  by (elim insertE emptyE)
     (simp_all add: player1_shoot_def player2_shoot_def shoot_cases)

lemma inside_last_shot: "inside mx my (t\<lparr>last_shot_time := v\<rparr>) = inside mx my t"
  by (simp add: inside_def)

lemma field_ok_handle_input: "field_ok g \<Longrightarrow> field_ok (handle_input g key ct cr)"
  using handle_input_dispatch [of g key ct cr]
  by (elim insertE emptyE)
     (simp_all add: field_ok_def move_inside player1_shoot_def player2_shoot_def shoot_cases
        inside_last_shot)

lemma field_ok_tick: "field_ok g \<Longrightarrow> field_ok (tick g key ct cr clock)"
  unfolding tick_def Game_update_def
  by (intro field_ok_check_collisions) (simp add: field_ok_bullets field_ok_handle_input)

lemma field_ok_init:
  assumes "possible_draws my mx draws" and "init_game my mx draws = Inr g"
  shows "field_ok g"
proof -
  have big: "20 \<le> mx \<and> 6 \<le> my"
    using assms(2) by (simp add: init_game_def split: if_splits)
  have g: "g = \<lparr>max_y = my, max_x = mx,
                player1 = Tank_init 5 (my div 2) ''^'' 1,
                player2 = Tank_init (mx - 5) (my div 2) ''^'' 2,
                bullets = [],
                obstacles = map (\<lambda>(px, py). Obstacle_init px py) draws,
                game_over = False, winner = None\<rparr>"
    using assms(2) by (simp add: init_game_def split: if_splits)
  have mid: "0 < my div 2 \<and> my div 2 < my - 1" using big by presburger
  have t1: "inside mx my (Tank_init 5 (my div 2) ''^'' 1)"
    using big mid by (simp add: inside_def Tank_init_def)
  have t2: "inside mx my (Tank_init (mx - 5) (my div 2) ''^'' 2)"
    using big mid by (simp add: inside_def Tank_init_def)
  have obs: "list_all (inside mx my) (map (\<lambda>(px, py). Obstacle_init px py) draws)"
    using assms(1) big
    by (auto simp: possible_draws_def list_all_iff inside_def Obstacle_init_def)
  show ?thesis unfolding g field_ok_def using t1 t2 obs by simp
qed

lemma reachable_field_ok: "reachable g \<Longrightarrow> field_ok g"
  by (induction rule: reachable.induct) (simp_all add: field_ok_init field_ok_tick)

lemma collide_bullets_border:
  assumes "field_ok g" and "b \<in> set bs" and "on_border (max_x g) (max_y g) b"
  shows "b \<in> set (snd (collide_bullets g bs))"
  using assms
proof (induction bs arbitrary: g)
  case Nil
  then show ?case by simp
next
  case (Cons c bs)
  let ?g1 = "fst (collide_bullet g c)"
  show ?case
  proof (cases "b = c")
    case True
    then have "snd (collide_bullet g c) = b"
      using collide_bullet_border [OF Cons.prems(1) Cons.prems(3)] by simp
    then show ?thesis unfolding collide_bullets_Cons snd_conv by simp
  next
    case False
    have f: "field_ok ?g1"
      using Cons.prems(1) by (rule field_ok_collide_bullet)
    have "b \<in> set (snd (collide_bullets ?g1 bs))"
      using f False Cons.prems by (intro Cons.IH) (simp_all add: collide_bullet_frame)
    then show ?thesis unfolding collide_bullets_Cons snd_conv by simp
  qed
qed


lemma update_bullets_unmoved:
  "c \<in> set bs \<Longrightarrow> \<forall>n. Bullet_update c (clock n) mx my = c \<Longrightarrow>
   c \<in> set (update_bullets clock k mx my bs)"
  by (induction bs arbitrary: k) auto

lemma handle_input_bullets: "set (bullets g) \<subseteq> set (bullets (handle_input g key ct cr))"
  using handle_input_dispatch [of g key ct cr]
  by (elim insertE emptyE)
     (auto simp: player1_shoot_def player2_shoot_def shoot_cases)

lemma check_collisions_border:
  assumes "field_ok g" and "c \<in> set (bullets g)" and "alive c"
    and "on_border (max_x g) (max_y g) c"
  shows "c \<in> set (bullets (check_collisions g))"
  using collide_bullets_border [OF assms(1,2,4)] assms(3)
  by (simp add: check_collisions_fields)

lemma tick_border:
  assumes "field_ok g" and "c \<in> set (bullets (handle_input g key ct cr))" and "alive c"
    and "on_border (max_x g) (max_y g) c"
    and "\<forall>n. \<not> clock n - last_move_time c > speed c"
  shows "c \<in> set (bullets (tick g key ct cr clock))"
proof -
  let ?h = "handle_input g key ct cr"
  let ?u = "?h\<lparr>bullets := update_bullets clock 0 (max_x ?h) (max_y ?h) (bullets ?h)\<rparr>"
  have t: "tick g key ct cr clock = check_collisions ?u"
    by (simp add: tick_def Game_update_def)
  have f: "field_ok ?u"
    using assms(1) by (simp add: field_ok_bullets field_ok_handle_input)
  have "\<forall>n. Bullet_update c (clock n) (max_x ?h) (max_y ?h) = c"
    using assms(5) by (simp add: Bullet_update_cases)
  then have m: "c \<in> set (bullets ?u)"
    using assms(2) by (simp add: update_bullets_unmoved)
  have b: "on_border (max_x ?u) (max_y ?u) c"
    using assms(4) by (simp add: handle_input_frame)
  show ?thesis unfolding t by (rule check_collisions_border [OF f m assms(3) b])
qed

lemma shoot_at_border:
  assumes "inside mx my t"
    and "\<not> (0 < x t + fst (direction_value (direction t)) \<and>
            x t + fst (direction_value (direction t)) < mx - 1 \<and>
            0 < y t + snd (direction_value (direction t)) \<and>
            y t + snd (direction_value (direction t)) < my - 1)"
    and "fst (can_shoot t now)"
  shows "\<exists>c. fst (shoot t now created) = Some c \<and> alive c \<and> on_border mx my c \<and>
             last_move_time c = created \<and> speed c = 0.1 \<and>
             (\<not> t1 - created > 0.1 \<longrightarrow> Bullet_update c t1 mx my = c) \<and>
             (t1 - created > 0.1 \<longrightarrow> \<not> alive (Bullet_update c t1 mx my))"
  using assms
  by (cases "direction t")
     (auto simp: shoot_cases can_shoot_def Bullet_init_def Bullet_update_cases inside_def
        on_border_def split: if_splits)

lemma small_game_init: "init_game 6 40 (replicate 20 (12, 3)) = Inr (small_game 3)"
  by (simp add: init_game_def small_game_def)

lemma small_game_draws: "possible_draws 6 40 (replicate 20 (12, 3))"
  by (simp add: possible_draws_def list_all_iff)

lemma small_game_up:
  "1 < py \<Longrightarrow> py < 5 \<Longrightarrow> tick (small_game py) 119 0 0 (\<lambda>n. 0) = small_game (py - 1)"
  by (simp add: tick_def Game_update_def handle_input_def ord_w_def move_def small_game_def
        Tank_init_def check_collisions_def Obstacle_init_def)

lemma small_game_reachable: "reachable (small_game 1)"
proof -
  have 3: "reachable (small_game 3)"
    by (rule reachable_init [OF small_game_draws small_game_init])
  have "reachable (tick (small_game 3) 119 0 0 (\<lambda>n. 0))"
    using 3 by (rule reachable_tick) (simp add: small_game_def)
  then have 2: "reachable (small_game 2)"
    using small_game_up [of 3] by simp
  have "reachable (tick (small_game 2) 119 0 0 (\<lambda>n. 0))"
    using 2 by (rule reachable_tick) (simp add: small_game_def)
  then show ?thesis
    using small_game_up [of 2] by simp
qed

text \<open>
  C10. A tank strictly inside the border whose cell ahead is not strictly inside, and
  for which \<^verbatim>\<open>can_shoot\<close> is true, gets from \<^verbatim>\<open>shoot\<close> a bullet that is alive and on
  a border cell: the constructor tests no bounds. A call of \<^verbatim>\<open>Bullet.update\<close> not more
  than \<open>0.1\<close> after the creation returns the bullet unchanged, alive; a call more than
  \<open>0.1\<close> after it moves the bullet and leaves it not alive. In a session, a live bullet
  on a border cell that is in the list after \<^verbatim>\<open>handle_input\<close> (as every bullet of the
  list before it, and the bullet just shot, are) and that no reading of the clock in
  this round moves, is still in the list after the round: no tank and no obstacle is
  on a border cell, so the collision loop leaves it alive.
\<close>

theorem border_bullet:
  "(inside mx my t \<and>
    \<not> (0 < x t + fst (direction_value (direction t)) \<and>
       x t + fst (direction_value (direction t)) < mx - 1 \<and>
       0 < y t + snd (direction_value (direction t)) \<and>
       y t + snd (direction_value (direction t)) < my - 1) \<and>
    fst (can_shoot t now) \<longrightarrow>
      (\<exists>c. fst (shoot t now created) = Some c \<and> alive c \<and> on_border mx my c \<and>
           last_move_time c = created \<and> speed c = 0.1 \<and>
           (\<not> t1 - created > 0.1 \<longrightarrow> Bullet_update c t1 mx my = c) \<and>
           (t1 - created > 0.1 \<longrightarrow> \<not> alive (Bullet_update c t1 mx my)))) \<and>
   set (bullets g) \<subseteq> set (bullets (handle_input g key ct cr)) \<and>
   (reachable g \<and> b \<in> set (bullets (handle_input g key ct cr)) \<and> alive b \<and>
    on_border (max_x g) (max_y g) b \<and> (\<forall>n. \<not> clock n - last_move_time b > speed b) \<longrightarrow>
      b \<in> set (bullets (tick g key ct cr clock)))"
proof -
  have two: "b \<in> set (bullets (tick g key ct cr clock))"
    if h: "reachable g \<and> b \<in> set (bullets (handle_input g key ct cr)) \<and> alive b \<and>
           on_border (max_x g) (max_y g) b \<and> (\<forall>n. \<not> clock n - last_move_time b > speed b)"
  proof -
    have "field_ok g" using h by (simp add: reachable_field_ok)
    then show ?thesis using h by (intro tick_border) simp_all
  qed
  show ?thesis
    using shoot_at_border [of mx my t now created t1] handle_input_bullets [of g key ct cr] two
    by blast
qed

theorem border_bullet_witness:
  "inside 40 6 (Tank_init 5 1 ''^'' 1) \<and> fst (can_shoot (Tank_init 5 1 ''^'' 1) 4) \<and>
   fst (shoot (Tank_init 5 1 ''^'' 1) 4 4) = Some (Bullet_init 5 0 UP 4) \<and>
   on_border 40 6 (Bullet_init 5 0 UP 4) \<and> alive (Bullet_init 5 0 UP 4) \<and>
   \<not> alive (Bullet_update (Bullet_init 5 0 UP 4) 4.2 40 6) \<and>
   reachable (small_game 1) \<and>
   Bullet_init 5 0 UP 4 \<in> set (bullets (handle_input (small_game 1) 32 4 4)) \<and>
   Bullet_init 5 0 UP 4 \<in> set (bullets (tick (small_game 1) 32 4 4 (\<lambda>n. 4.05)))"
proof -
  have a: "fst (shoot (Tank_init 5 1 ''^'' 1) 4 4) = Some (Bullet_init 5 0 UP 4)"
    by (simp add: shoot_cases Tank_init_def)
  have h: "Bullet_init 5 0 UP 4 \<in> set (bullets (handle_input (small_game 1) 32 4 4))"
    by (simp add: handle_input_def ord_w_def ord_s_def ord_a_def ord_d_def ord_space_def
          player1_shoot_def shoot_cases small_game_def Tank_init_def)
  have i: "inside 40 6 (Tank_init 5 1 ''^'' 1) \<and> fst (can_shoot (Tank_init 5 1 ''^'' 1) 4)"
    by (simp add: inside_def Tank_init_def can_shoot_def)
  have b: "on_border 40 6 (Bullet_init 5 0 UP 4) \<and> alive (Bullet_init 5 0 UP 4)"
    by (simp add: on_border_def Bullet_init_def)
  have m: "max_x (small_game 1) = 40 \<and> max_y (small_game 1) = 6"
    by (simp add: small_game_def)
  have c: "\<forall>n. \<not> 4.05 - last_move_time (Bullet_init 5 0 UP 4) > speed (Bullet_init 5 0 UP 4)"
    by (simp add: Bullet_init_def)
  from border_bullet [of 40 6 "Tank_init 5 1 ''^'' 1" 4 4 "4.2" "small_game 1" 32 4 4
      "Bullet_init 5 0 UP 4" "\<lambda>n. 4.05"]
    a h i b m c small_game_reachable
  show ?thesis by (auto simp: Tank_init_def)
qed

end
